theory Spec2Isabelle
  imports Main "HOL-Library.AList" "HOL-Library.Sublist"
begin

section \<open>The pull request store of the desktop client\<close>

text \<open>
  A shallow embedding of \<^verbatim>\<open>app/src/lib/stores/pull-request-store.ts\<close>. Every
  method of \<^verbatim>\<open>PullRequestStore\<close> becomes a function on an explicit store state;
  a thrown error or a rejected promise is the \<open>Inl\<close> branch of the result, and the
  state reached when the error was raised is returned next to it, since the effects made
  before a throw stay.
\<close>

subsection \<open>Data\<close>

text \<open>
  \<^verbatim>\<open>IAPIPullRequestRef\<close> and \<^verbatim>\<open>IAPIPullRequest\<close> of the API module. The
  repository descriptor \<^verbatim>\<open>IAPIRepository\<close> is only handed on to the repositories
  store, so it stays a type parameter; \<^verbatim>\<open>repo: IAPIRepository | null\<close> is an option.
\<close>

datatype pr_state = Open | Closed | Merged

record 'ar IAPIPullRequestRef =
  api_ref :: string
  api_sha :: string
  api_repo :: "'ar option"

record 'ar IAPIPullRequest =
  api_number :: int
  api_title :: string
  created_at :: string
  updated_at :: string
  api_head :: "'ar IAPIPullRequestRef"
  api_base :: "'ar IAPIPullRequestRef"
  user_login :: string
  api_state :: pr_state

text \<open>The persisted shape, \<^verbatim>\<open>IPullRequest\<close> of the database module.\<close>

record IPullRequestRef =
  ref :: string
  sha :: string
  repoId :: nat

record IPullRequest =
  number :: int
  title :: string
  createdAt :: string
  updatedAt :: string
  head :: IPullRequestRef
  base :: IPullRequestRef
  author :: string

record GitHubRepository =
  name :: string
  owner_login :: string
  endpoint :: string
  dbID :: "nat option"
  cloneURL :: "string option"

definition fullName :: "GitHubRepository \<Rightarrow> string" where
  "fullName r = owner_login r @ ''/'' @ name r"

record Repository =
  repo_name :: string
  gitHubRepository :: "GitHubRepository option"

record Account =
  account_login :: string
  account_endpoint :: string
  token :: string

datatype date = Date string

record PullRequestRef =
  pr_ref :: string
  pr_sha :: string
  pr_gitHubRepository :: "GitHubRepository option"

record PullRequest =
  pr_created :: date
  pr_title :: string
  pr_number :: int
  pr_head :: PullRequestRef
  pr_base :: PullRequestRef
  pr_author :: string

record Remote =
  remote_name :: string
  remote_url :: string

subsection \<open>Errors, log entries, requests\<close>

text \<open>
  \<open>FatalError\<close> is what \<^verbatim>\<open>fatalError\<close> throws; \<open>Rejected\<close> is the rejection of
  an awaited promise of a collaborator (the API, the databases, git).
\<close>

datatype exn = FatalError string | Rejected string

text \<open>
  The three places that write to a log, each with the values its message interpolates:
  \<^verbatim>\<open>log.debug\<close> in the loop of \<^verbatim>\<open>cachePullRequests\<close> (number, full name),
  \<^verbatim>\<open>log.warn\<close> in the catch block of \<^verbatim>\<open>refreshPullRequests\<close> (repository name,
  error) and \<^verbatim>\<open>console.log\<close> before the transaction (both lengths).
\<close>

datatype log_entry =
    Debug_no_head_repository int string
  | Warn_error_refreshing string exn
  | Console_found nat nat

datatype api_request =
    FetchPullRequests string string string
  | FetchUpdatedPullRequests string string date

datatype db_op = GetPullRequest | Transaction | GetAllPullRequestsInRepository

subsection \<open>The persistent cache\<close>

text \<open>
  The table of pull requests, keyed by (base repository id, number), kept as an
  association list.
\<close>

type_synonym prdb = "((nat \<times> int) \<times> IPullRequest) list"

definition key :: "IPullRequest \<Rightarrow> nat \<times> int" where
  "key r = (repoId (base r), number r)"

definition deletePullRequests :: "IPullRequest list \<Rightarrow> prdb \<Rightarrow> prdb" where
  \<comment> \<open>Modelled from the spec: \<^verbatim>\<open>PullRequestDatabase.deletePullRequests\<close> is not among
      the sources; the cache is "keyed by (repository, pull-request number)" and a batch
      delete removes the entry of each listed record's key.\<close>
  "deletePullRequests prs d = foldl (\<lambda>d r. AList.delete (key r) d) d prs"

definition putPullRequests :: "IPullRequest list \<Rightarrow> prdb \<Rightarrow> prdb" where
  \<comment> \<open>Modelled from the spec: \<^verbatim>\<open>PullRequestDatabase.putPullRequests\<close> is not among
      the sources; an upsert creates or overwrites the entry of each listed record's key.\<close>
  "putPullRequests prs d = foldl (\<lambda>d r. AList.update (key r) r d) d prs"

definition commit :: "IPullRequest list \<Rightarrow> IPullRequest list \<Rightarrow> prdb \<Rightarrow> prdb" where
  \<comment> \<open>The body of the transaction: deletes, then upserts.\<close>
  "commit prsToDelete prsToUpsert d = putPullRequests prsToUpsert (deletePullRequests prsToDelete d)"

definition structuralEquals :: "IPullRequest \<Rightarrow> IPullRequest \<Rightarrow> bool" where
  \<comment> \<open>Modelled from the spec: \<^verbatim>\<open>structuralEquals\<close> of the equality module is not among
      the sources; "structural comparison of two records", field by field.\<close>
  "structuralEquals a b \<longleftrightarrow>
     number a = number b \<and> title a = title b \<and>
     createdAt a = createdAt b \<and> updatedAt a = updatedAt b \<and>
     ref (head a) = ref (head b) \<and> sha (head a) = sha (head b) \<and>
     repoId (head a) = repoId (head b) \<and>
     ref (base a) = ref (base b) \<and> sha (base a) = sha (base b) \<and>
     repoId (base a) = repoId (base b) \<and>
     author a = author b"

subsection \<open>Collaborators and the store state\<close>

text \<open>
  The collaborators whose code is outside this module are parameters: what the hosting
  API answers to a request, the repositories store (\<open>'rs\<close> is its state), git
  (\<open>'gs\<close> is the state of the working copy's remotes), the last-updated query of the
  database, and whether an operation of the pull request database rejects.
\<close>

record ('ar, 'rs, 'gs) env =
  api :: "Account \<Rightarrow> api_request \<Rightarrow> exn + 'ar IAPIPullRequest list"
  getLastUpdated :: "prdb \<Rightarrow> GitHubRepository \<Rightarrow> exn + date option"
  db_failure :: "db_op \<Rightarrow> exn option"
  upsertGitHubRepository :: "'rs \<Rightarrow> string \<Rightarrow> 'ar \<Rightarrow> exn + GitHubRepository \<times> 'rs"
  findGitHubRepositoryByID :: "'rs \<Rightarrow> nat \<Rightarrow> exn + GitHubRepository option"
  getRemotes :: "'gs \<Rightarrow> Repository \<Rightarrow> exn + Remote list"
  removeRemote :: "'gs \<Rightarrow> Repository \<Rightarrow> string \<Rightarrow> exn + 'gs"
  ForkedRemotePrefix :: string

text \<open>
  The state: the counter map of the store, the pull request table, the state of the
  repositories store and of git, and the traces of what the store did (log entries,
  update notifications, API requests, committed transactions).
\<close>

record ('rs, 'gs) store =
  activeFetchCountPerRepository :: "nat \<rightharpoonup> int"
  db :: prdb
  repositoryStore :: 'rs
  git :: 'gs
  log :: "log_entry list"
  emitted :: "GitHubRepository list"
  requests :: "api_request list"
  transactions :: "(IPullRequest list \<times> IPullRequest list) list"

definition write_log :: "log_entry \<Rightarrow> ('rs, 'gs) store \<Rightarrow> ('rs, 'gs) store" where
  "write_log e s = s\<lparr>log := log s @ [e]\<rparr>"

definition emitUpdate :: "GitHubRepository \<Rightarrow> ('rs, 'gs) store \<Rightarrow> ('rs, 'gs) store" where
  "emitUpdate r s = s\<lparr>emitted := emitted s @ [r]\<rparr>"

definition forceUnwrap :: "string \<Rightarrow> 'a option \<Rightarrow> exn + 'a" where
  \<comment> \<open>Modelled from the spec: \<^verbatim>\<open>forceUnwrap\<close> of the fatal-error module is not among
      the sources; a missing value "that must be there" is fatal.\<close>
  "forceUnwrap message x = (case x of None \<Rightarrow> Inl (FatalError message) | Some v \<Rightarrow> Inr v)"

definition db_getPullRequest ::
  "('ar, 'rs, 'gs) env \<Rightarrow> prdb \<Rightarrow> GitHubRepository \<Rightarrow> int \<Rightarrow> exn + IPullRequest option" where
  \<comment> \<open>Modelled from the spec: \<^verbatim>\<open>PullRequestDatabase.getPullRequest\<close> is not among the
      sources; "get-single-by-number" in a cache "keyed by (repository, pull-request
      number)". A repository with no database id has no key.\<close>
  "db_getPullRequest env d repository n =
     (case db_failure env GetPullRequest of
        Some e \<Rightarrow> Inl e
      | None \<Rightarrow>
         (case dbID repository of
            None \<Rightarrow> Inl (FatalError ''no dbId'')
          | Some i \<Rightarrow> Inr (map_of d (i, n))))"

definition db_getAllPullRequestsInRepository ::
  "('ar, 'rs, 'gs) env \<Rightarrow> prdb \<Rightarrow> GitHubRepository \<Rightarrow> exn + IPullRequest list" where
  \<comment> \<open>Modelled from the spec: \<^verbatim>\<open>PullRequestDatabase.getAllPullRequestsInRepository\<close>
      is not among the sources; "get-all-for-repository".\<close>
  "db_getAllPullRequestsInRepository env d repository =
     (case db_failure env GetAllPullRequestsInRepository of
        Some e \<Rightarrow> Inl e
      | None \<Rightarrow>
         (case dbID repository of
            None \<Rightarrow> Inl (FatalError ''no dbId'')
          | Some i \<Rightarrow> Inr (map snd (filter (\<lambda>(k, r). fst k = i) d))))"

definition db_transaction ::
  "('ar, 'rs, 'gs) env \<Rightarrow> IPullRequest list \<Rightarrow> IPullRequest list \<Rightarrow> ('rs, 'gs) store
     \<Rightarrow> (exn + unit) \<times> ('rs, 'gs) store" where
  \<comment> \<open>Modelled from the spec: the transaction of the database library is not among the
      sources; "either all listed deletions and upsertions apply, or none do".\<close>
  "db_transaction env prsToDelete prsToUpsert s =
     (case db_failure env Transaction of
        Some e \<Rightarrow> (Inl e, s)
      | None \<Rightarrow>
         (Inr (),
          s\<lparr>db := commit prsToDelete prsToUpsert (db s),
            transactions := transactions s @ [(prsToDelete, prsToUpsert)]\<rparr>))"

subsection \<open>The fetch-activity counter\<close>

definition Decrement :: "int \<Rightarrow> int" where
  "Decrement n = n - 1"

definition Increment :: "int \<Rightarrow> int" where
  "Increment n = n + 1"

definition currentCount :: "('rs, 'gs) store \<Rightarrow> nat \<Rightarrow> int" where
  \<comment> \<open>\<^verbatim>\<open>this.activeFetchCountPerRepository.get(repoDbId) || 0\<close>\<close>
  "currentCount s repoDbId =
     (case activeFetchCountPerRepository s repoDbId of
        None \<Rightarrow> 0
      | Some c \<Rightarrow> if c = 0 then 0 else c)"

definition updateActiveFetchCount ::
  "GitHubRepository \<Rightarrow> (int \<Rightarrow> int) \<Rightarrow> ('rs, 'gs) store \<Rightarrow> (exn + unit) \<times> ('rs, 'gs) store" where
  "updateActiveFetchCount repository update s =
     (case forceUnwrap ''Cannot fetch PRs for a repository which is not in the database''
             (dbID repository) of
        Inl e \<Rightarrow> (Inl e, s)
      | Inr repoDbId \<Rightarrow>
          (let newCount = update (currentCount s repoDbId)
           in (Inr (),
               emitUpdate repository
                 (s\<lparr>activeFetchCountPerRepository :=
                      (activeFetchCountPerRepository s)(repoDbId \<mapsto> newCount)\<rparr>))))"

definition isFetchingPullRequests :: "GitHubRepository \<Rightarrow> ('rs, 'gs) store \<Rightarrow> exn + bool" where
  "isFetchingPullRequests repository s =
     (case forceUnwrap ''Cannot fetch PRs for a repository which is not in the database''
             (dbID repository) of
        Inl e \<Rightarrow> Inl e
      | Inr repoDbId \<Rightarrow> Inr (currentCount s repoDbId > 0))"

subsection \<open>Reconciliation: \<^verbatim>\<open>cachePullRequests\<close>\<close>

text \<open>
  One pass of the \<^verbatim>\<open>for\<close> loop over the fetched pull requests, with the two arrays
  \<^verbatim>\<open>prsToDelete\<close> and \<^verbatim>\<open>prsToUpsert\<close> as accumulators (\<^verbatim>\<open>push\<close> appends).
\<close>

definition dbPr :: "'ar IAPIPullRequest \<Rightarrow> nat \<Rightarrow> nat \<Rightarrow> IPullRequest" where
  \<comment> \<open>The record \<^verbatim>\<open>dbPr\<close> built from a fetched pull request and the database ids of
      its head and base repositories.\<close>
  "dbPr pr headId baseId =
     \<lparr>number = api_number pr,
      title = api_title pr,
      createdAt = created_at pr,
      updatedAt = updated_at pr,
      head = \<lparr>ref = api_ref (api_head pr), sha = api_sha (api_head pr), repoId = headId\<rparr>,
      base = \<lparr>ref = api_ref (api_base pr), sha = api_sha (api_base pr), repoId = baseId\<rparr>,
      author = user_login pr\<rparr>"

definition cachePullRequests_body ::
  "('ar, 'rs, 'gs) env \<Rightarrow> GitHubRepository \<Rightarrow> 'ar IAPIPullRequest
     \<Rightarrow> IPullRequest list \<Rightarrow> IPullRequest list \<Rightarrow> ('rs, 'gs) store
     \<Rightarrow> (exn + IPullRequest list \<times> IPullRequest list) \<times> ('rs, 'gs) store" where
  "cachePullRequests_body env repository pr prsToDelete prsToUpsert s =
     (case api_repo (api_head pr) of
        None \<Rightarrow>
          (Inr (prsToDelete, prsToUpsert),
           write_log (Debug_no_head_repository (api_number pr) (fullName repository)) s)
      | Some head_repo \<Rightarrow>
         (case upsertGitHubRepository env (repositoryStore s) (endpoint repository) head_repo of
            Inl e \<Rightarrow> (Inl e, s)
          | Inr (headRepo, rs1) \<Rightarrow>
             (let s1 = s\<lparr>repositoryStore := rs1\<rparr> in
              case dbID headRepo of
                None \<Rightarrow> (Inl (FatalError ''PR cannot have non-existent repo''), s1)
              | Some headId \<Rightarrow>
                 (case api_repo (api_base pr) of
                    None \<Rightarrow> (Inl (FatalError ''PR cannot have a null base repo''), s1)
                  | Some base_repo \<Rightarrow>
                     (case upsertGitHubRepository env rs1 (endpoint repository) base_repo of
                        Inl e \<Rightarrow> (Inl e, s1)
                      | Inr (baseGitHubRepo, rs2) \<Rightarrow>
                         (let s2 = s1\<lparr>repositoryStore := rs2\<rparr> in
                          case dbID baseGitHubRepo of
                            None \<Rightarrow>
                              (Inl (FatalError ''PR cannot have a null parent database id''), s2)
                          | Some baseId \<Rightarrow>
                             (let r = dbPr pr headId baseId
                              in if api_state pr = Closed \<or> api_state pr = Merged
                                 then (Inr (prsToDelete @ [r], prsToUpsert), s2)
                                 else (Inr (prsToDelete, prsToUpsert @ [r]), s2))))))))"

fun cachePullRequests_loop ::
  "('ar, 'rs, 'gs) env \<Rightarrow> GitHubRepository \<Rightarrow> 'ar IAPIPullRequest list
     \<Rightarrow> IPullRequest list \<Rightarrow> IPullRequest list \<Rightarrow> ('rs, 'gs) store
     \<Rightarrow> (exn + IPullRequest list \<times> IPullRequest list) \<times> ('rs, 'gs) store" where
  "cachePullRequests_loop env repository [] prsToDelete prsToUpsert s =
     (Inr (prsToDelete, prsToUpsert), s)"
| "cachePullRequests_loop env repository (pr # rest) prsToDelete prsToUpsert s =
     (case cachePullRequests_body env repository pr prsToDelete prsToUpsert s of
        (Inl e, s') \<Rightarrow> (Inl e, s')
      | (Inr (prsToDelete', prsToUpsert'), s') \<Rightarrow>
          cachePullRequests_loop env repository rest prsToDelete' prsToUpsert' s')"

text \<open>
  The check after the loop: with nothing to delete and one record to upsert, is the
  record the one already stored under its number?
\<close>

definition unchanged_single ::
  "('ar, 'rs, 'gs) env \<Rightarrow> GitHubRepository \<Rightarrow> IPullRequest list \<Rightarrow> IPullRequest list
     \<Rightarrow> ('rs, 'gs) store \<Rightarrow> exn + bool" where
  "unchanged_single env repository prsToDelete prsToUpsert s =
     (if length prsToDelete = 0 \<and> length prsToUpsert = 1 then
        (case prsToUpsert of
           [] \<Rightarrow> Inr False
         | cur # _ \<Rightarrow>
            (case db_getPullRequest env (db s) repository (number cur) of
               Inl e \<Rightarrow> Inl e
             | Inr None \<Rightarrow> Inr False
             | Inr (Some prev) \<Rightarrow> Inr (structuralEquals cur prev)))
      else Inr False)"

definition cachePullRequests ::
  "('ar, 'rs, 'gs) env \<Rightarrow> 'ar IAPIPullRequest list \<Rightarrow> GitHubRepository \<Rightarrow> ('rs, 'gs) store
     \<Rightarrow> (exn + bool) \<times> ('rs, 'gs) store" where
  "cachePullRequests env pullRequestsFromAPI repository s =
     (if length pullRequestsFromAPI = 0 then (Inr False, s)
      else
       (case cachePullRequests_loop env repository pullRequestsFromAPI [] [] s of
          (Inl e, s1) \<Rightarrow> (Inl e, s1)
        | (Inr (prsToDelete, prsToUpsert), s1) \<Rightarrow>
           (case unchanged_single env repository prsToDelete prsToUpsert s1 of
              Inl e \<Rightarrow> (Inl e, s1)
            | Inr True \<Rightarrow> (Inr False, s1)
            | Inr False \<Rightarrow>
               (let s2 = write_log (Console_found (length prsToDelete) (length prsToUpsert)) s1
                in case db_transaction env prsToDelete prsToUpsert s2 of
                     (Inl e, s3) \<Rightarrow> (Inl e, s3)
                   | (Inr _, s3) \<Rightarrow> (Inr True, s3)))))"

subsection \<open>Reading the cache: \<^verbatim>\<open>getAll\<close>\<close>

text \<open>
  \<^verbatim>\<open>getRepo\<close> is the memoized lookup: the table of the answers given so far is
  passed along the loop.
\<close>

type_synonym memo = "nat \<rightharpoonup> (exn + GitHubRepository option)"

definition getRepo ::
  "('ar, 'rs, 'gs) env \<Rightarrow> 'rs \<Rightarrow> memo \<Rightarrow> nat \<Rightarrow> (exn + GitHubRepository option) \<times> memo" where
  "getRepo env rs m i =
     (case m i of
        Some r \<Rightarrow> (r, m)
      | None \<Rightarrow> (let r = findGitHubRepositoryByID env rs i in (r, m(i \<mapsto> r))))"

fun getAll_loop ::
  "('ar, 'rs, 'gs) env \<Rightarrow> 'rs \<Rightarrow> IPullRequest list \<Rightarrow> memo \<Rightarrow> PullRequest list
     \<Rightarrow> exn + PullRequest list" where
  "getAll_loop env rs [] m result = Inr result"
| "getAll_loop env rs (record # rest) m result =
     (case (if repoId (head record) \<noteq> 0 then getRepo env rs m (repoId (head record))
            else (Inr None, m)) of
        (Inl e, m1) \<Rightarrow> Inl e
      | (Inr headRepository, m1) \<Rightarrow>
         (case getRepo env rs m1 (repoId (base record)) of
            (Inl e, m2) \<Rightarrow> Inl e
          | (Inr None, m2) \<Rightarrow> Inl (FatalError ''base repository can't be null'')
          | (Inr (Some baseRepository), m2) \<Rightarrow>
              getAll_loop env rs rest m2
                (result @
                 [\<lparr>pr_created = Date (createdAt record),
                   pr_title = title record,
                   pr_number = number record,
                   pr_head = \<lparr>pr_ref = ref (head record), pr_sha = sha (head record),
                              pr_gitHubRepository = headRepository\<rparr>,
                   pr_base = \<lparr>pr_ref = ref (base record), pr_sha = sha (base record),
                              pr_gitHubRepository = Some baseRepository\<rparr>,
                   pr_author = author record\<rparr>])))"

definition getAll ::
  "('ar, 'rs, 'gs) env \<Rightarrow> GitHubRepository \<Rightarrow> ('rs, 'gs) store \<Rightarrow> exn + PullRequest list" where
  "getAll env repository s =
     (if dbID repository = None then Inl (FatalError ''Can't fetch PRs for repository, no dbId'')
      else
       (case db_getAllPullRequestsInRepository env (db s) repository of
          Inl e \<Rightarrow> Inl e
        | Inr records \<Rightarrow>
           (case getAll_loop env (repositoryStore s) records Map.empty [] of
              Inl e \<Rightarrow> Inl e
            | Inr result \<Rightarrow> Inr (rev result))))"

subsection \<open>Pruning the remotes of forks: \<^verbatim>\<open>pruneForkedRemotes\<close>\<close>

fun prRemotes :: "PullRequest list \<Rightarrow> string list" where
  "prRemotes [] = []"
| "prRemotes (pr # rest) =
     (case pr_gitHubRepository (pr_head pr) of
        None \<Rightarrow> prRemotes rest
      | Some prRepo \<Rightarrow>
         (case cloneURL prRepo of
            None \<Rightarrow> prRemotes rest
          | Some url \<Rightarrow> url # prRemotes rest))"

fun pruneForkedRemotes_loop ::
  "('ar, 'rs, 'gs) env \<Rightarrow> Repository \<Rightarrow> Remote list \<Rightarrow> string list \<Rightarrow> 'gs
     \<Rightarrow> (exn + unit) \<times> 'gs" where
  "pruneForkedRemotes_loop env repository [] urls g = (Inr (), g)"
| "pruneForkedRemotes_loop env repository (r # rest) urls g =
     (if prefix (ForkedRemotePrefix env) (remote_name r) \<and> remote_url r \<notin> set urls
      then (case removeRemote env g repository (remote_name r) of
              Inl e \<Rightarrow> (Inl e, g)
            | Inr g' \<Rightarrow> pruneForkedRemotes_loop env repository rest urls g')
      else pruneForkedRemotes_loop env repository rest urls g)"

definition pruneForkedRemotes ::
  "('ar, 'rs, 'gs) env \<Rightarrow> Repository \<Rightarrow> PullRequest list \<Rightarrow> ('rs, 'gs) store
     \<Rightarrow> (exn + unit) \<times> ('rs, 'gs) store" where
  "pruneForkedRemotes env repository pullRequests s =
     (case getRemotes env (git s) repository of
        Inl e \<Rightarrow> (Inl e, s)
      | Inr remotes \<Rightarrow>
         (case pruneForkedRemotes_loop env repository remotes (prRemotes pullRequests) (git s) of
            (r, g') \<Rightarrow> (r, s\<lparr>git := g'\<rparr>)))"

subsection \<open>Refreshing: \<^verbatim>\<open>refreshPullRequests\<close>\<close>

definition request_for :: "GitHubRepository \<Rightarrow> date option \<Rightarrow> api_request" where
  \<comment> \<open>\<^verbatim>\<open>lastUpdatedAt ? fetchUpdatedPullRequests(..) : fetchPullRequests(.., 'open')\<close>;
      a \<^verbatim>\<open>Date\<close> object is truthy, \<^verbatim>\<open>null\<close> is not.\<close>
  "request_for githubRepo lastUpdatedAt =
     (case lastUpdatedAt of
        Some t \<Rightarrow> FetchUpdatedPullRequests (owner_login githubRepo) (name githubRepo) t
      | None \<Rightarrow> FetchPullRequests (owner_login githubRepo) (name githubRepo) ''open'')"

definition refresh_try ::
  "('ar, 'rs, 'gs) env \<Rightarrow> Repository \<Rightarrow> GitHubRepository \<Rightarrow> Account \<Rightarrow> date option
     \<Rightarrow> ('rs, 'gs) store \<Rightarrow> (exn + unit) \<times> ('rs, 'gs) store" where
  \<comment> \<open>The \<^verbatim>\<open>try\<close> block.\<close>
  "refresh_try env repository githubRepo account lastUpdatedAt s =
     (let request = request_for githubRepo lastUpdatedAt;
          s1 = s\<lparr>requests := requests s @ [request]\<rparr>
      in case api env account request of
           Inl e \<Rightarrow> (Inl e, s1)
         | Inr apiResult \<Rightarrow>
            (case cachePullRequests env apiResult githubRepo s1 of
               (Inl e, s2) \<Rightarrow> (Inl e, s2)
             | (Inr False, s2) \<Rightarrow> (Inr (), s2)
             | (Inr True, s2) \<Rightarrow>
                (case getAll env githubRepo s2 of
                   Inl e \<Rightarrow> (Inl e, s2)
                 | Inr prs \<Rightarrow>
                    (case pruneForkedRemotes env repository prs s2 of
                       (Inl e, s3) \<Rightarrow> (Inl e, s3)
                     | (Inr _, s3) \<Rightarrow> (Inr (), emitUpdate githubRepo s3)))))"

definition refresh_catch ::
  "Repository \<Rightarrow> (exn + unit) \<times> ('rs, 'gs) store \<Rightarrow> ('rs, 'gs) store" where
  \<comment> \<open>The \<^verbatim>\<open>catch\<close> block: whatever the \<^verbatim>\<open>try\<close> block threw is logged.\<close>
  "refresh_catch repository r =
     (case r of
        (Inl error, s) \<Rightarrow> write_log (Warn_error_refreshing (repo_name repository) error) s
      | (Inr _, s) \<Rightarrow> s)"

definition refreshPullRequests ::
  "('ar, 'rs, 'gs) env \<Rightarrow> Repository \<Rightarrow> Account \<Rightarrow> ('rs, 'gs) store
     \<Rightarrow> (exn + unit) \<times> ('rs, 'gs) store" where
  "refreshPullRequests env repository account s =
     (case forceUnwrap ''Can only refresh pull requests for GitHub repositories''
             (gitHubRepository repository) of
        Inl e \<Rightarrow> (Inl e, s)
      | Inr githubRepo \<Rightarrow>
         (case updateActiveFetchCount githubRepo Increment s of
            (Inl e, s1) \<Rightarrow> (Inl e, s1)
          | (Inr _, s1) \<Rightarrow>
             (case getLastUpdated env (db s1) githubRepo of
                Inl e \<Rightarrow> (Inl e, s1)
              | Inr lastUpdatedAt \<Rightarrow>
                 updateActiveFetchCount githubRepo Decrement
                   (refresh_catch repository
                      (refresh_try env repository githubRepo account lastUpdatedAt s1)))))"

subsection \<open>Refreshes in flight\<close>

text \<open>
  The store runs on one thread: a call of \<^verbatim>\<open>refreshPullRequests\<close> runs until it
  awaits, and other calls run in between. For the counter a call has three steps: the
  increment when it is called, the answer of \<^verbatim>\<open>getLastUpdated\<close> (outside the
  \<^verbatim>\<open>try\<close>: a rejection ends the call there), and the decrement of the
  \<^verbatim>\<open>finally\<close> block when the \<^verbatim>\<open>try\<close> block has ended either way. A schedule is a
  list of such steps, each naming the call by its position in the list of calls made.
  What the \<^verbatim>\<open>try\<close> block does in between is left out of a schedule: it does not
  touch the counter map.
\<close>

datatype phase = AwaitingLastUpdated | InTry | Rejected_outside_try | Completed

datatype event =
    Call Repository
  | LastUpdatedResolved nat
  | LastUpdatedRejected nat
  | Finally nat

record ('rs, 'gs) sys =
  the_store :: "('rs, 'gs) store"
  calls :: "(GitHubRepository \<times> phase) list"

definition step :: "event \<Rightarrow> ('rs, 'gs) sys \<Rightarrow> ('rs, 'gs) sys option" where
  "step ev \<sigma> =
     (case ev of
        Call repository \<Rightarrow>
          (case forceUnwrap ''Can only refresh pull requests for GitHub repositories''
                  (gitHubRepository repository) of
             Inl e \<Rightarrow> Some \<sigma>
           | Inr githubRepo \<Rightarrow>
              (case updateActiveFetchCount githubRepo Increment (the_store \<sigma>) of
                 (Inl e, s1) \<Rightarrow> Some (\<sigma>\<lparr>the_store := s1\<rparr>)
               | (Inr _, s1) \<Rightarrow>
                   Some \<lparr>the_store = s1, calls = calls \<sigma> @ [(githubRepo, AwaitingLastUpdated)]\<rparr>))
      | LastUpdatedResolved i \<Rightarrow>
          (if i < length (calls \<sigma>) \<and> snd (calls \<sigma> ! i) = AwaitingLastUpdated
           then Some (\<sigma>\<lparr>calls := (calls \<sigma>)[i := (fst (calls \<sigma> ! i), InTry)]\<rparr>)
           else None)
      | LastUpdatedRejected i \<Rightarrow>
          (if i < length (calls \<sigma>) \<and> snd (calls \<sigma> ! i) = AwaitingLastUpdated
           then Some (\<sigma>\<lparr>calls := (calls \<sigma>)[i := (fst (calls \<sigma> ! i), Rejected_outside_try)]\<rparr>)
           else None)
      | Finally i \<Rightarrow>
          (if i < length (calls \<sigma>) \<and> snd (calls \<sigma> ! i) = InTry
           then Some \<lparr>the_store =
                        snd (updateActiveFetchCount (fst (calls \<sigma> ! i)) Decrement (the_store \<sigma>)),
                      calls = (calls \<sigma>)[i := (fst (calls \<sigma> ! i), Completed)]\<rparr>
           else None))"

fun run :: "event list \<Rightarrow> ('rs, 'gs) sys \<Rightarrow> ('rs, 'gs) sys option" where
  "run [] \<sigma> = Some \<sigma>"
| "run (ev # evs) \<sigma> = (case step ev \<sigma> of None \<Rightarrow> None | Some \<sigma>' \<Rightarrow> run evs \<sigma>')"

definition in_flight :: "nat \<Rightarrow> (GitHubRepository \<times> phase) list \<Rightarrow> nat" where
  \<comment> \<open>The calls for the repository with this id that have incremented and not decremented.\<close>
  "in_flight i cs = length (filter (\<lambda>(g, p). dbID g = Some i \<and> p \<noteq> Completed) cs)"

text \<open>The table of the memoized lookup only holds answers of the lookup.\<close>

definition memo_sound :: "('ar, 'rs, 'gs) env \<Rightarrow> 'rs \<Rightarrow> memo \<Rightarrow> bool" where
  "memo_sound env rs m \<longleftrightarrow> (\<forall>i r. m i = Some r \<longrightarrow> r = findGitHubRepositoryByID env rs i)"

text \<open>
  The invariant of the schedules: every call made is for a repository of the database,
  and the counter of a repository is the number of its calls in flight.
\<close>

definition sys_inv :: "('rs, 'gs) sys \<Rightarrow> bool" where
  "sys_inv \<sigma> \<longleftrightarrow>
     (\<forall>c \<in> set (calls \<sigma>). dbID (fst c) \<noteq> None) \<and>
     (\<forall>i. currentCount (the_store \<sigma>) i = int (in_flight i (calls \<sigma>)))"

subsection \<open>Example values\<close>

text \<open>
  A small instance of the collaborators, for evaluating the store on concrete inputs: a
  repository descriptor is the clone URL, the repositories table is the list of the
  descriptors it knows (the database id is the position, from 1), and git is the list of
  the remotes.
\<close>

definition ex_github_repository :: "string \<Rightarrow> string \<Rightarrow> nat \<Rightarrow> GitHubRepository" where
  "ex_github_repository ep a i =
     \<lparr>name = a, owner_login = ''octo'', endpoint = ep, dbID = Some i, cloneURL = Some a\<rparr>"

definition ex_upsert ::
  "string list \<Rightarrow> string \<Rightarrow> string \<Rightarrow> exn + GitHubRepository \<times> string list" where
  "ex_upsert rs ep a =
     (let rs' = (if a \<in> set rs then rs else rs @ [a])
      in Inr (ex_github_repository ep a (Suc (length (takeWhile (\<lambda>x. x \<noteq> a) rs'))), rs'))"

definition ex_find :: "string list \<Rightarrow> nat \<Rightarrow> exn + GitHubRepository option" where
  "ex_find rs i =
     (if 0 < i \<and> i \<le> length rs
      then Inr (Some (ex_github_repository ''https://api.github.com'' (rs ! (i - 1)) i))
      else Inr None)"

definition ex_pr :: "int \<Rightarrow> pr_state \<Rightarrow> string option \<Rightarrow> string option \<Rightarrow> string IAPIPullRequest" where
  "ex_pr n st h b =
     \<lparr>api_number = n, api_title = ''Fix the thing'',
      created_at = ''2019-01-01T00:00:00Z'', updated_at = ''2019-01-02T00:00:00Z'',
      api_head = \<lparr>api_ref = ''topic'', api_sha = ''abc'', api_repo = h\<rparr>,
      api_base = \<lparr>api_ref = ''master'', api_sha = ''def'', api_repo = b\<rparr>,
      user_login = ''alice'', api_state = st\<rparr>"

definition ex_env :: "string IAPIPullRequest list \<Rightarrow> (string, string list, Remote list) env" where
  \<comment> \<open>Every collaborator answers; the API answers the given list.\<close>
  "ex_env prs =
     \<lparr>api = (\<lambda>account request. Inr prs),
      getLastUpdated = (\<lambda>d repository. Inr (if d = [] then None else Some (Date ''t0''))),
      db_failure = (\<lambda>op. None),
      upsertGitHubRepository = ex_upsert,
      findGitHubRepositoryByID = ex_find,
      getRemotes = (\<lambda>g repository. Inr g),
      removeRemote = (\<lambda>g repository n. Inr (filter (\<lambda>r. remote_name r \<noteq> n) g)),
      ForkedRemotePrefix = ''github-desktop-''\<rparr>"

definition ex_repo :: GitHubRepository where
  "ex_repo = ex_github_repository ''https://api.github.com'' ''up/desktop'' 1"

definition ex_repository :: Repository where
  "ex_repository = \<lparr>repo_name = ''desktop'', gitHubRepository = Some ex_repo\<rparr>"

definition ex_account :: Account where
  "ex_account = \<lparr>account_login = ''alice'', account_endpoint = ''https://api.github.com'',
                 token = ''secret''\<rparr>"

definition ex_store :: "prdb \<Rightarrow> (string list, Remote list) store" where
  \<comment> \<open>A store at rest, with the given pull request table.\<close>
  "ex_store d =
     \<lparr>activeFetchCountPerRepository = Map.empty, db = d,
      repositoryStore = [''up/desktop''], git = [],
      log = [], emitted = [], requests = [], transactions = []\<rparr>"

definition ex_record :: "int \<Rightarrow> nat \<Rightarrow> IPullRequest" where
  \<comment> \<open>What is stored for \<open>ex_pr n\<close> with the head repository of database id \<open>h\<close>.\<close>
  "ex_record n h = dbPr (ex_pr n Open None None) h 1"

definition ex_orphan :: "string IAPIPullRequest" where
  \<comment> \<open>An open pull request whose fork is gone.\<close>
  "ex_orphan = ex_pr 9 Open None (Some ''up/desktop'')"

definition ex_store_with_remote :: "(string list, Remote list) store" where
  "ex_store_with_remote =
     (ex_store [((1, 7), ex_record 7 1)])
       \<lparr>git := [\<lparr>remote_name = ''github-desktop-bob'', remote_url = ''bob/desktop''\<rparr>]\<rparr>"

definition ex_closed7 :: "string IAPIPullRequest" where
  "ex_closed7 = ex_pr 7 Closed (Some ''up/desktop'') (Some ''up/desktop'')"

definition ex_open8 :: "string IAPIPullRequest" where
  "ex_open8 = ex_pr 8 Open (Some ''fork/desktop'') (Some ''up/desktop'')"

definition ex_closed7_orphan :: "string IAPIPullRequest" where
  \<comment> \<open>Pull request 7 once it is closed and its fork deleted.\<close>
  "ex_closed7_orphan = ex_pr 7 Closed None (Some ''up/desktop'')"

definition ex_ghost_base :: "string IAPIPullRequest" where
  "ex_ghost_base = ex_pr 5 Open (Some ''up/desktop'') (Some ''ghost'')"

definition ex_env_ghost :: "(string, string list, Remote list) env" where
  \<comment> \<open>The repositories store gives the descriptor \<open>''ghost''\<close> a record with no id.\<close>
  "ex_env_ghost =
     (ex_env [])\<lparr>upsertGitHubRepository :=
        (\<lambda>rs ep a. if a = ''ghost''
                    then Inr ((ex_github_repository ep a 0)\<lparr>dbID := None\<rparr>, rs)
                    else ex_upsert rs ep a)\<rparr>"

definition ex_store_no_repositories :: "(string list, Remote list) store" where
  \<comment> \<open>Pull request 7 is cached, and the repositories table has lost its repository.\<close>
  "ex_store_no_repositories = (ex_store [((1, 7), ex_record 7 1)])\<lparr>repositoryStore := []\<rparr>"

definition ex_env_db_down :: "(string, string list, Remote list) env" where
  \<comment> \<open>The last-updated query of the database rejects.\<close>
  "ex_env_db_down =
     (ex_env [])\<lparr>getLastUpdated := (\<lambda>d repository. Inl (Rejected ''database closed''))\<rparr>"

definition ex_env_git_down :: "string IAPIPullRequest list \<Rightarrow> (string, string list, Remote list) env" where
  \<comment> \<open>Git cannot list the remotes.\<close>
  "ex_env_git_down prs =
     (ex_env prs)\<lparr>getRemotes := (\<lambda>g repository. Inl (Rejected ''git failed''))\<rparr>"

definition ex_env_api_down :: "(string, string list, Remote list) env" where
  \<comment> \<open>The hosting API cannot be reached.\<close>
  "ex_env_api_down = (ex_env [])\<lparr>api := (\<lambda>account request. Inl (Rejected ''network''))\<rparr>"

definition ex_env_ghost_after_fork :: "(string, string list, Remote list) env" where
  \<comment> \<open>The repositories store gives the descriptor \<open>''ghost''\<close> a record with no id
      once it knows \<open>''fork/desktop''\<close>, and a record with an id before.\<close>
  "ex_env_ghost_after_fork =
     (ex_env [])\<lparr>upsertGitHubRepository :=
        (\<lambda>rs ep a. if a = ''ghost'' \<and> ''fork/desktop'' \<in> set rs
                    then Inr ((ex_github_repository ep a 0)\<lparr>dbID := None\<rparr>, rs)
                    else ex_upsert rs ep a)\<rparr>"

definition ex_null_base :: "string IAPIPullRequest" where
  "ex_null_base = ex_pr 6 Open (Some ''up/desktop'') None"

definition ex_orphan_ghost :: "string IAPIPullRequest" where
  \<comment> \<open>The fork is gone, and the base repository is the one that gets no id.\<close>
  "ex_orphan_ghost = ex_pr 9 Open None (Some ''ghost'')"

section \<open>What the operations leave alone\<close>

lemma structuralEquals_iff: "structuralEquals a b \<longleftrightarrow> a = b"
  by (cases a, cases b, cases "head a", cases "head b", cases "base a", cases "base b")
     (auto simp: structuralEquals_def)

lemma body_frame:
  assumes "cachePullRequests_body env repository pr dels ups s = (r, s')"
  shows "db s' = db s \<and> transactions s' = transactions s \<and>
         activeFetchCountPerRepository s' = activeFetchCountPerRepository s \<and>
         emitted s' = emitted s \<and> requests s' = requests s \<and> git s' = git s"
  using assms
  by (auto simp: cachePullRequests_body_def write_log_def Let_def
           split: option.splits sum.splits prod.splits if_splits)

lemma loop_frame:
  assumes "cachePullRequests_loop env repository prs dels ups s = (r, s')"
  shows "db s' = db s \<and> transactions s' = transactions s \<and>
         activeFetchCountPerRepository s' = activeFetchCountPerRepository s \<and>
         emitted s' = emitted s \<and> requests s' = requests s \<and> git s' = git s"
  using assms
proof (induction prs arbitrary: dels ups s)
  case Nil
  then show ?case by simp
next
  case (Cons pr rest)
  obtain rb sb where b: "cachePullRequests_body env repository pr dels ups s = (rb, sb)"
    by (cases "cachePullRequests_body env repository pr dels ups s")
  note fb = body_frame [OF b]
  show ?case
  proof (cases rb)
    case (Inl e)
    with Cons.prems b fb show ?thesis by simp
  next
    case (Inr p)
    obtain d u where p: "p = (d, u)" by (cases p)
    from Cons.prems b Inr p have "cachePullRequests_loop env repository rest d u sb = (r, s')"
      by simp
    from Cons.IH [OF this] fb show ?thesis by simp
  qed
qed

lemma body_repositoryStore:
  assumes "repositoryStore s = repositoryStore t"
  shows "fst (cachePullRequests_body env repository pr dels ups s) =
           fst (cachePullRequests_body env repository pr dels ups t) \<and>
         repositoryStore (snd (cachePullRequests_body env repository pr dels ups s)) =
           repositoryStore (snd (cachePullRequests_body env repository pr dels ups t))"
  using assms
  by (auto simp: cachePullRequests_body_def write_log_def Let_def
           split: option.splits sum.splits prod.splits)

lemma loop_repositoryStore:
  assumes "repositoryStore s = repositoryStore t"
  shows "fst (cachePullRequests_loop env repository prs dels ups s) =
           fst (cachePullRequests_loop env repository prs dels ups t) \<and>
         repositoryStore (snd (cachePullRequests_loop env repository prs dels ups s)) =
           repositoryStore (snd (cachePullRequests_loop env repository prs dels ups t))"
  using assms
proof (induction prs arbitrary: dels ups s t)
  case Nil
  then show ?case by simp
next
  case (Cons pr rest)
  obtain rs ss where bs: "cachePullRequests_body env repository pr dels ups s = (rs, ss)"
    by (cases "cachePullRequests_body env repository pr dels ups s")
  obtain rt st where bt: "cachePullRequests_body env repository pr dels ups t = (rt, st)"
    by (cases "cachePullRequests_body env repository pr dels ups t")
  from body_repositoryStore [OF Cons.prems, of env repository pr dels ups] bs bt
  have eq: "rs = rt" "repositoryStore ss = repositoryStore st" by simp_all
  show ?case
  proof (cases rs)
    case (Inl e)
    with bs bt eq show ?thesis by auto
  next
    case (Inr p)
    obtain d u where p: "p = (d, u)" by (cases p)
    from Cons.IH [OF eq(2), of d u] bs bt eq Inr p show ?thesis by auto
  qed
qed

lemma body_null_head:
  assumes "api_repo (api_head pr) = None"
  shows "cachePullRequests_body env repository pr dels ups s =
           (Inr (dels, ups),
            write_log (Debug_no_head_repository (api_number pr) (fullName repository)) s)"
  using assms by (simp add: cachePullRequests_body_def)

lemma loop_all_null_head:
  assumes "\<forall>pr \<in> set prs. api_repo (api_head pr) = None"
  shows "cachePullRequests_loop env repository prs dels ups s =
           (Inr (dels, ups),
            s\<lparr>log := log s @
                 map (\<lambda>pr. Debug_no_head_repository (api_number pr) (fullName repository)) prs\<rparr>)"
  using assms
proof (induction prs arbitrary: s)
  case Nil
  then show ?case by simp
next
  case (Cons pr rest)
  then show ?case
    by (simp add: body_null_head write_log_def)
qed

lemma commit_nothing: "commit [] [] d = d"
  by (simp add: commit_def putPullRequests_def deletePullRequests_def)

lemma cachePullRequests_all_null_head:
  assumes ne: "prs \<noteq> []"
    and null: "\<forall>pr \<in> set prs. api_repo (api_head pr) = None"
    and ok: "db_failure env Transaction = None"
  shows "cachePullRequests env prs repository s =
           (Inr True,
            s\<lparr>log := log s @
                 map (\<lambda>pr. Debug_no_head_repository (api_number pr) (fullName repository)) prs @
                 [Console_found 0 0],
              transactions := transactions s @ [([], [])]\<rparr>)"
  using ne ok
  by (simp add: cachePullRequests_def loop_all_null_head [OF null] unchanged_single_def
        write_log_def db_transaction_def commit_nothing)

lemma updateActiveFetchCount_frame:
  "db (snd (updateActiveFetchCount g f s)) = db s \<and>
   requests (snd (updateActiveFetchCount g f s)) = requests s \<and>
   log (snd (updateActiveFetchCount g f s)) = log s \<and>
   transactions (snd (updateActiveFetchCount g f s)) = transactions s \<and>
   git (snd (updateActiveFetchCount g f s)) = git s \<and>
   repositoryStore (snd (updateActiveFetchCount g f s)) = repositoryStore s"
  by (simp add: updateActiveFetchCount_def forceUnwrap_def emitUpdate_def Let_def
        split: option.splits)

lemma updateActiveFetchCount_Some:
  assumes "dbID g = Some i"
  shows "updateActiveFetchCount g f s =
           (Inr (),
            s\<lparr>activeFetchCountPerRepository :=
                 (activeFetchCountPerRepository s)(i \<mapsto> f (currentCount s i)),
              emitted := emitted s @ [g]\<rparr>)"
  using assms by (simp add: updateActiveFetchCount_def forceUnwrap_def emitUpdate_def)

lemma db_transaction_frame:
  assumes "db_transaction env dels ups s = (r, s')"
  shows "activeFetchCountPerRepository s' = activeFetchCountPerRepository s \<and>
         emitted s' = emitted s \<and> requests s' = requests s \<and> git s' = git s \<and>
         log s' = log s \<and> repositoryStore s' = repositoryStore s"
  using assms by (auto simp: db_transaction_def split: option.splits)

lemma cachePullRequests_frame:
  assumes "cachePullRequests env prs repository s = (r, s')"
  shows "activeFetchCountPerRepository s' = activeFetchCountPerRepository s \<and>
         emitted s' = emitted s \<and> requests s' = requests s \<and> git s' = git s"
proof (cases "prs = []")
  case True
  with assms show ?thesis by (simp add: cachePullRequests_def)
next
  case False
  obtain rl sl where l: "cachePullRequests_loop env repository prs [] [] s = (rl, sl)"
    by (cases "cachePullRequests_loop env repository prs [] [] s")
  note fl = loop_frame [OF l]
  show ?thesis
  proof (cases rl)
    case (Inl e)
    with assms False l fl show ?thesis by (simp add: cachePullRequests_def)
  next
    case (Inr p)
    obtain d u where p: "p = (d, u)" by (cases p)
    obtain rt st where
      tr: "db_transaction env d u (write_log (Console_found (length d) (length u)) sl) = (rt, st)"
      by (cases "db_transaction env d u (write_log (Console_found (length d) (length u)) sl)")
    from db_transaction_frame [OF tr]
    have ft: "activeFetchCountPerRepository st = activeFetchCountPerRepository sl \<and>
              emitted st = emitted sl \<and> requests st = requests sl \<and> git st = git sl"
      by (simp add: write_log_def)
    from assms False l Inr p tr ft fl show ?thesis
      by (auto simp: cachePullRequests_def Let_def split: sum.splits bool.splits)
  qed
qed

lemma pruneForkedRemotes_frame:
  assumes "pruneForkedRemotes env repository prs s = (r, s')"
  shows "activeFetchCountPerRepository s' = activeFetchCountPerRepository s \<and>
         emitted s' = emitted s \<and> requests s' = requests s \<and> db s' = db s \<and>
         log s' = log s \<and> transactions s' = transactions s"
  using assms by (auto simp: pruneForkedRemotes_def split: sum.splits prod.splits)

lemma refresh_try_frame:
  assumes "refresh_try env repository g account lu s = (r, s')"
  shows "activeFetchCountPerRepository s' = activeFetchCountPerRepository s \<and>
         requests s' = requests s @ [request_for g lu]"
proof -
  let ?s1 = "s\<lparr>requests := requests s @ [request_for g lu]\<rparr>"
  show ?thesis
  proof (cases "api env account (request_for g lu)")
    case (Inl e)
    with assms show ?thesis by (auto simp: refresh_try_def Let_def)
  next
    case (Inr prs)
    obtain rc sc where c: "cachePullRequests env prs g ?s1 = (rc, sc)"
      by (cases "cachePullRequests env prs g ?s1")
    from cachePullRequests_frame [OF c]
    have fc: "activeFetchCountPerRepository sc = activeFetchCountPerRepository s"
      "requests sc = requests s @ [request_for g lu]" by simp_all
    show ?thesis
    proof (cases "rc = Inr True \<and> (\<exists>ps. getAll env g sc = Inr ps)")
      case False
      with assms Inr c fc show ?thesis
        by (auto simp: refresh_try_def Let_def split: sum.splits bool.splits)
    next
      case True
      then obtain ps where ps: "getAll env g sc = Inr ps" and rc: "rc = Inr True" by auto
      obtain rp sp where pr: "pruneForkedRemotes env repository ps sc = (rp, sp)"
        by (cases "pruneForkedRemotes env repository ps sc")
      from pruneForkedRemotes_frame [OF pr] fc
      have "activeFetchCountPerRepository sp = activeFetchCountPerRepository s"
        "requests sp = requests s @ [request_for g lu]" by simp_all
      with assms Inr c rc ps pr show ?thesis
        by (auto simp: refresh_try_def Let_def emitUpdate_def split: sum.splits)
    qed
  qed
qed

lemma refresh_catch_frame:
  "activeFetchCountPerRepository (refresh_catch repository (r, s)) =
     activeFetchCountPerRepository s \<and>
   requests (refresh_catch repository (r, s)) = requests s \<and>
   db (refresh_catch repository (r, s)) = db s \<and>
   transactions (refresh_catch repository (r, s)) = transactions s"
  by (simp add: refresh_catch_def write_log_def split: sum.splits)

section \<open>What the loop collects, and when it fails\<close>

lemma map_of_deletePullRequests:
  "map_of (deletePullRequests rs d) k = (if k \<in> key ` set rs then None else map_of d k)"
  unfolding deletePullRequests_def
  by (induction rs arbitrary: d) (auto simp: delete_conv')

lemma map_of_putPullRequests_other:
  "k \<notin> key ` set rs \<Longrightarrow> map_of (putPullRequests rs d) k = map_of d k"
  unfolding putPullRequests_def
  by (induction rs arbitrary: d) (auto simp: update_conv')

lemma map_of_commit_deleted:
  assumes "k \<in> key ` set dels" "k \<notin> key ` set ups"
  shows "map_of (commit dels ups d) k = None"
  using assms by (simp add: commit_def map_of_putPullRequests_other map_of_deletePullRequests)

lemma not_Open: "st \<noteq> Open \<longleftrightarrow> st = Closed \<or> st = Merged"
  by (cases st) simp_all

lemma body_sets:
  assumes "cachePullRequests_body env repository pr d u s = (Inr (d', u'), s')"
  shows "(api_repo (api_head pr) = None \<and> d' = d \<and> u' = u) \<or>
         (api_repo (api_head pr) \<noteq> None \<and>
          (\<exists>h b. if api_state pr = Closed \<or> api_state pr = Merged
                 then d' = d @ [dbPr pr h b] \<and> u' = u
                 else d' = d \<and> u' = u @ [dbPr pr h b]))"
  using assms
  by (auto simp: cachePullRequests_body_def Let_def
           split: option.splits sum.splits prod.splits if_splits)

lemma loop_sets:
  assumes "cachePullRequests_loop env repository prs d0 u0 s = (Inr (d, u), s')"
  shows "set d0 \<subseteq> set d \<and>
         (\<forall>pr \<in> set prs. api_repo (api_head pr) \<noteq> None \<longrightarrow>
            api_state pr = Closed \<or> api_state pr = Merged \<longrightarrow> (\<exists>h b. dbPr pr h b \<in> set d)) \<and>
         (\<forall>r \<in> set u. r \<in> set u0 \<or>
            (\<exists>pr \<in> set prs. api_state pr = Open \<and> (\<exists>h b. r = dbPr pr h b)))"
  using assms
proof (induction prs arbitrary: d0 u0 s)
  case Nil
  then show ?case by auto
next
  case (Cons x rest)
  obtain rb sb where b: "cachePullRequests_body env repository x d0 u0 s = (rb, sb)"
    by (cases "cachePullRequests_body env repository x d0 u0 s")
  show ?case
  proof (cases rb)
    case (Inl e)
    with Cons.prems b show ?thesis by simp
  next
    case (Inr p)
    obtain d1 u1 where p: "p = (d1, u1)" by (cases p)
    from Cons.prems b Inr p
    have l: "cachePullRequests_loop env repository rest d1 u1 sb = (Inr (d, u), s')" by simp
    note ih = Cons.IH [OF l]
    from b Inr p have bb: "cachePullRequests_body env repository x d0 u0 s = (Inr (d1, u1), sb)"
      by simp
    note bs = body_sets [OF bb]
    have 1: "set d0 \<subseteq> set d" using ih bs by (auto split: if_splits)
    have 2: "\<exists>h b. dbPr pr h b \<in> set d"
      if "pr \<in> set (x # rest)" "api_repo (api_head pr) \<noteq> None"
         "api_state pr = Closed \<or> api_state pr = Merged" for pr
    proof (cases "pr = x")
      case True
      with that bs obtain h b where "d1 = d0 @ [dbPr pr h b]" by auto
      with ih show ?thesis by auto
    next
      case False
      with that ih show ?thesis by auto
    qed
    have 3: "r \<in> set u0 \<or> (\<exists>pr \<in> set (x # rest). api_state pr = Open \<and> (\<exists>h b. r = dbPr pr h b))"
      if "r \<in> set u" for r
    proof -
      from that ih have "r \<in> set u1 \<or>
          (\<exists>pr \<in> set rest. api_state pr = Open \<and> (\<exists>h b. r = dbPr pr h b))" by blast
      then show ?thesis
      proof
        assume "r \<in> set u1"
        with bs have "r \<in> set u0 \<or> (api_state x = Open \<and> (\<exists>h b. r = dbPr x h b))"
          using not_Open [of "api_state x"] by (fastforce split: if_splits)
        then show ?thesis by auto
      next
        assume "\<exists>pr \<in> set rest. api_state pr = Open \<and> (\<exists>h b. r = dbPr pr h b)"
        then show ?thesis by auto
      qed
    qed
    from 1 2 3 show ?thesis by blast
  qed
qed

lemma key_dbPr: "key (dbPr pr h b) = (b, api_number pr)"
  by (simp add: key_def dbPr_def)

lemma cachePullRequests_committed:
  assumes "cachePullRequests env prs repository s = (Inr True, s')"
  shows "\<exists>dels ups s1. cachePullRequests_loop env repository prs [] [] s = (Inr (dels, ups), s1) \<and>
           transactions s' = transactions s @ [(dels, ups)] \<and>
           db s' = commit dels ups (db s)"
proof -
  from assms have ne: "prs \<noteq> []" by (auto simp: cachePullRequests_def)
  obtain rl sl where l: "cachePullRequests_loop env repository prs [] [] s = (rl, sl)"
    by (cases "cachePullRequests_loop env repository prs [] [] s")
  note fl = loop_frame [OF l]
  from assms ne l obtain d u where rl: "rl = Inr (d, u)"
    by (cases rl) (auto simp: cachePullRequests_def)
  from assms ne l rl fl show ?thesis
    by (auto simp: cachePullRequests_def Let_def db_transaction_def write_log_def
             split: sum.splits bool.splits option.splits)
qed

lemma loop_append:
  "cachePullRequests_loop env repository (xs @ ys) d u s =
     (case cachePullRequests_loop env repository xs d u s of
        (Inl e, s') \<Rightarrow> (Inl e, s')
      | (Inr (d', u'), s') \<Rightarrow> cachePullRequests_loop env repository ys d' u' s')"
proof (induction xs arbitrary: d u s)
  case Nil
  then show ?case by simp
next
  case (Cons x xs)
  obtain rb sb where b: "cachePullRequests_body env repository x d u s = (rb, sb)"
    by (cases "cachePullRequests_body env repository x d u s")
  show ?case
  proof (cases rb)
    case (Inl e)
    with b show ?thesis by simp
  next
    case (Inr p)
    obtain d1 u1 where p: "p = (d1, u1)" by (cases p)
    from Cons.IH [of d1 u1 sb] b Inr p show ?thesis by simp
  qed
qed

lemma cachePullRequests_loop_Inl:
  assumes "cachePullRequests_loop env repository prs [] [] s = (Inl e, sl)"
  shows "cachePullRequests env prs repository s = (Inl e, sl)"
proof -
  from assms have "prs \<noteq> []" by auto
  with assms show ?thesis by (simp add: cachePullRequests_def)
qed

lemma cachePullRequests_Inr_loop:
  assumes "fst (cachePullRequests env prs repository s) = Inr c" "prs \<noteq> []"
  shows "\<exists>dels ups sl. cachePullRequests_loop env repository prs [] [] s = (Inr (dels, ups), sl)"
proof -
  obtain rl sl where l: "cachePullRequests_loop env repository prs [] [] s = (rl, sl)"
    by (cases "cachePullRequests_loop env repository prs [] [] s")
  show ?thesis
  proof (cases rl)
    case (Inl e)
    with l cachePullRequests_loop_Inl [of env repository prs s e sl] assms show ?thesis by simp
  next
    case (Inr p)
    with l show ?thesis by (cases p) simp
  qed
qed

lemma body_Inr_resolved:
  assumes "cachePullRequests_body env repository pr d u s = (Inr p, s')"
    and "api_repo (api_head pr) = Some h"
  shows "\<exists>headRepo rs1 headId b g rs2 baseId.
           upsertGitHubRepository env (repositoryStore s) (endpoint repository) h =
             Inr (headRepo, rs1) \<and> dbID headRepo = Some headId \<and>
           api_repo (api_base pr) = Some b \<and>
           upsertGitHubRepository env rs1 (endpoint repository) b = Inr (g, rs2) \<and>
           dbID g = Some baseId"
  using assms
  by (auto simp: cachePullRequests_body_def Let_def
           split: option.splits sum.splits prod.splits if_splits)

lemma body_null_base:
  assumes "api_repo (api_head pr) = Some h"
    and "upsertGitHubRepository env (repositoryStore s) (endpoint repository) h = Inr (headRepo, rs1)"
    and "dbID headRepo = Some headId"
    and "api_repo (api_base pr) = None"
  shows "cachePullRequests_body env repository pr d u s =
           (Inl (FatalError ''PR cannot have a null base repo''), s\<lparr>repositoryStore := rs1\<rparr>)"
  using assms by (simp add: cachePullRequests_body_def)

lemma body_base_without_id:
  assumes "api_repo (api_head pr) = Some h"
    and "upsertGitHubRepository env (repositoryStore s) (endpoint repository) h = Inr (headRepo, rs1)"
    and "dbID headRepo = Some headId"
    and "api_repo (api_base pr) = Some b"
    and "upsertGitHubRepository env rs1 (endpoint repository) b = Inr (g, rs2)"
    and "dbID g = None"
  shows "cachePullRequests_body env repository pr d u s =
           (Inl (FatalError ''PR cannot have a null parent database id''),
            s\<lparr>repositoryStore := rs2\<rparr>)"
  using assms by (simp add: cachePullRequests_body_def)

lemma cachePullRequests_reaches:
  assumes "cachePullRequests_loop env repository xs [] [] s = (Inr (d, u), s1)"
    and "cachePullRequests_body env repository pr d u s1 = (Inl e, s2)"
  shows "cachePullRequests env (xs @ pr # ys) repository s = (Inl e, s2)"
proof -
  from assms have "cachePullRequests_loop env repository (xs @ pr # ys) [] [] s = (Inl e, s2)"
    by (simp add: loop_append)
  from cachePullRequests_loop_Inl [OF this] show ?thesis .
qed

lemma closed_forces_commit:
  assumes loop: "cachePullRequests_loop env repository prs [] [] s = (Inr (dels, ups), s1)"
    and pr: "pr \<in> set prs"
    and closed: "api_state pr = Closed \<or> api_state pr = Merged"
    and hd: "api_repo (api_head pr) \<noteq> None"
    and ok: "db_failure env Transaction = None"
  shows "cachePullRequests env prs repository s =
           (Inr True,
            s1\<lparr>log := log s1 @ [Console_found (length dels) (length ups)],
               db := commit dels ups (db s),
               transactions := transactions s @ [(dels, ups)]\<rparr>)"
proof -
  from pr have ne: "prs \<noteq> []" by auto
  from loop_sets [OF loop] pr closed hd obtain h b where "dbPr pr h b \<in> set dels" by blast
  then have "dels \<noteq> []" by auto
  then have us: "unchanged_single env repository dels ups s1 = Inr False"
    by (simp add: unchanged_single_def)
  from loop_frame [OF loop] have "db s1 = db s" "transactions s1 = transactions s" by simp_all
  with loop ne us ok show ?thesis
    by (simp add: cachePullRequests_def db_transaction_def write_log_def)
qed

lemma getRepo_sound:
  assumes "memo_sound env rs m"
  shows "fst (getRepo env rs m i) = findGitHubRepositoryByID env rs i \<and>
         memo_sound env rs (snd (getRepo env rs m i))"
  using assms by (auto simp: getRepo_def memo_sound_def Let_def split: option.splits)

lemma getAll_loop_base_null:
  assumes "r \<in> set records"
    and "findGitHubRepositoryByID env rs (repoId (base r)) = Inr None"
    and "memo_sound env rs m"
  shows "\<exists>e. getAll_loop env rs records m result = Inl e \<and>
             (e = FatalError ''base repository can't be null'' \<or>
              (\<exists>x \<in> set records.
                 findGitHubRepositoryByID env rs (repoId (head x)) = Inl e \<or>
                 findGitHubRepositoryByID env rs (repoId (base x)) = Inl e))"
  using assms(1,3)
proof (induction records arbitrary: m result)
  case Nil
  then show ?case by simp
next
  case (Cons x rest)
  define hm where "hm = (if repoId (head x) \<noteq> 0 then getRepo env rs m (repoId (head x))
            else (Inr None, m))"
  have hm1: "fst hm = (if repoId (head x) \<noteq> 0 then findGitHubRepositoryByID env rs (repoId (head x))
            else Inr None)" and hm2: "memo_sound env rs (snd hm)"
    using getRepo_sound [OF Cons.prems(2), of "repoId (head x)"] Cons.prems(2)
    by (auto simp: hm_def)
  obtain hr m1 where hm3: "hm = (hr, m1)" by (cases hm)
  note bm = getRepo_sound [OF hm2, of "repoId (base x)"]
  obtain br m2 where bm3: "getRepo env rs m1 (repoId (base x)) = (br, m2)"
    by (cases "getRepo env rs m1 (repoId (base x))")
  with bm hm3 have br: "br = findGitHubRepositoryByID env rs (repoId (base x))"
    and m2: "memo_sound env rs m2" by simp_all
  have unf: "getAll_loop env rs (x # rest) m result =
    (case hr of Inl e \<Rightarrow> Inl e
     | Inr headRepository \<Rightarrow>
        (case br of Inl e \<Rightarrow> Inl e
         | Inr None \<Rightarrow> Inl (FatalError ''base repository can't be null'')
         | Inr (Some baseRepository) \<Rightarrow>
             getAll_loop env rs rest m2
                (result @
                 [\<lparr>pr_created = Date (createdAt x),
                   pr_title = title x,
                   pr_number = number x,
                   pr_head = \<lparr>pr_ref = ref (head x), pr_sha = sha (head x),
                              pr_gitHubRepository = headRepository\<rparr>,
                   pr_base = \<lparr>pr_ref = ref (base x), pr_sha = sha (base x),
                              pr_gitHubRepository = Some baseRepository\<rparr>,
                   pr_author = author x\<rparr>])))"
    using hm3 bm3 unfolding hm_def by (simp split: sum.splits)
  note getAll_loop.simps(2) [simp del]
  show ?case
  proof (cases hr)
    case (Inl e)
    with hm1 hm3 have "findGitHubRepositoryByID env rs (repoId (head x)) = Inl e"
      by (auto split: if_splits)
    moreover from unf Inl have "getAll_loop env rs (x # rest) m result = Inl e" by simp
    ultimately show ?thesis by auto
  next
    case (Inr headRepository)
    show ?thesis
    proof (cases br)
      case (Inl e)
      with br have "findGitHubRepositoryByID env rs (repoId (base x)) = Inl e" by simp
      moreover from unf Inr Inl have "getAll_loop env rs (x # rest) m result = Inl e" by simp
      ultimately show ?thesis by auto
    next
      case Inr2: (Inr bo)
      show ?thesis
      proof (cases bo)
        case None
        with unf Inr Inr2 show ?thesis by simp
      next
        case (Some baseRepository)
        with Inr2 br assms(2) have "r \<noteq> x" by auto
        with Cons.prems have "r \<in> set rest" by simp
        from Cons.IH [OF this m2,
            of "result @
                 [\<lparr>pr_created = Date (createdAt x),
                   pr_title = title x,
                   pr_number = number x,
                   pr_head = \<lparr>pr_ref = ref (head x), pr_sha = sha (head x),
                              pr_gitHubRepository = headRepository\<rparr>,
                   pr_base = \<lparr>pr_ref = ref (base x), pr_sha = sha (base x),
                              pr_gitHubRepository = Some baseRepository\<rparr>,
                   pr_author = author x\<rparr>]"]
        obtain e where e: "getAll_loop env rs rest m2
                (result @
                 [\<lparr>pr_created = Date (createdAt x),
                   pr_title = title x,
                   pr_number = number x,
                   pr_head = \<lparr>pr_ref = ref (head x), pr_sha = sha (head x),
                              pr_gitHubRepository = headRepository\<rparr>,
                   pr_base = \<lparr>pr_ref = ref (base x), pr_sha = sha (base x),
                              pr_gitHubRepository = Some baseRepository\<rparr>,
                   pr_author = author x\<rparr>]) = Inl e"
          "e = FatalError ''base repository can't be null'' \<or>
              (\<exists>x \<in> set rest.
                 findGitHubRepositoryByID env rs (repoId (head x)) = Inl e \<or>
                 findGitHubRepositoryByID env rs (repoId (base x)) = Inl e)" by blast
        from e(1) unf Inr Inr2 Some have "getAll_loop env rs (x # rest) m result = Inl e" by simp
        with e(2) show ?thesis by auto
      qed
    qed
  qed
qed

section \<open>The counter along a schedule\<close>

lemma in_flight_append:
  "in_flight j (cs @ [(g, p)]) = in_flight j cs + (if dbID g = Some j \<and> p \<noteq> Completed then 1 else 0)"
  by (simp add: in_flight_def)

lemma in_flight_Cons:
  "int (in_flight j (c # cs)) =
     (if dbID (fst c) = Some j \<and> snd c \<noteq> Completed then 1 else 0) + int (in_flight j cs)"
  by (cases c) (simp add: in_flight_def)

lemma in_flight_update:
  assumes "i < length cs"
  shows "int (in_flight j (cs[i := x])) =
           int (in_flight j cs)
           - (if dbID (fst (cs ! i)) = Some j \<and> snd (cs ! i) \<noteq> Completed then 1 else 0)
           + (if dbID (fst x) = Some j \<and> snd x \<noteq> Completed then 1 else 0)"
  using assms
proof (induction cs arbitrary: i)
  case Nil
  then show ?case by simp
next
  case (Cons c cs)
  show ?case
  proof (cases i)
    case 0
    then show ?thesis by (simp add: in_flight_Cons)
  next
    case (Suc k)
    with Cons.prems have "k < length cs" by simp
    from Cons.IH [OF this] Suc show ?thesis by (simp add: in_flight_Cons)
  qed
qed

lemma currentCount_update:
  "currentCount (s\<lparr>activeFetchCountPerRepository := (activeFetchCountPerRepository s)(i \<mapsto> c),
                   emitted := em\<rparr>) j =
     (if j = i then c else currentCount s j)"
  by (simp add: currentCount_def)

lemma step_inv:
  assumes inv: "sys_inv \<sigma>" and st: "step ev \<sigma> = Some \<sigma>'"
  shows "sys_inv \<sigma>'"
proof (cases ev)
  case (Call repository)
  show ?thesis
  proof (cases "gitHubRepository repository")
    case None
    with st Call inv show ?thesis by (simp add: step_def forceUnwrap_def)
  next
    case (Some g)
    show ?thesis
    proof (cases "dbID g")
      case None
      with st Call Some have "\<sigma>' = \<sigma>"
        by (simp add: step_def forceUnwrap_def updateActiveFetchCount_def)
      with inv show ?thesis by simp
    next
      case (Some i)
      from st Call \<open>gitHubRepository repository = Some g\<close>
      have \<sigma>': "\<sigma>' = \<lparr>the_store = (the_store \<sigma>)\<lparr>activeFetchCountPerRepository :=
                 (activeFetchCountPerRepository (the_store \<sigma>))(i \<mapsto> Increment (currentCount (the_store \<sigma>) i)),
              emitted := emitted (the_store \<sigma>) @ [g]\<rparr>,
            calls = calls \<sigma> @ [(g, AwaitingLastUpdated)]\<rparr>"
        by (simp add: step_def forceUnwrap_def updateActiveFetchCount_Some [OF Some])
      show ?thesis
        using inv Some unfolding sys_inv_def \<sigma>'
        by (simp add: currentCount_update in_flight_append Increment_def)
    qed
  qed
next
  case (LastUpdatedResolved i)
  with st have i: "i < length (calls \<sigma>)" "snd (calls \<sigma> ! i) = AwaitingLastUpdated"
    and \<sigma>': "\<sigma>' = \<sigma>\<lparr>calls := (calls \<sigma>)[i := (fst (calls \<sigma> ! i), InTry)]\<rparr>"
    by (auto simp: step_def split: if_splits)
  from inv i(1) have k: "dbID (fst (calls \<sigma> ! i)) \<noteq> None"
    by (simp add: sys_inv_def)
  have "\<forall>c \<in> set ((calls \<sigma>)[i := (fst (calls \<sigma> ! i), InTry)]). dbID (fst c) \<noteq> None"
    using inv k set_update_subset_insert [of "calls \<sigma>" i "(fst (calls \<sigma> ! i), InTry)"]
    by (auto simp: sys_inv_def)
  with inv i show ?thesis unfolding sys_inv_def \<sigma>'
    by (simp add: in_flight_update)
next
  case (LastUpdatedRejected i)
  with st have i: "i < length (calls \<sigma>)" "snd (calls \<sigma> ! i) = AwaitingLastUpdated"
    and \<sigma>': "\<sigma>' = \<sigma>\<lparr>calls := (calls \<sigma>)[i := (fst (calls \<sigma> ! i), Rejected_outside_try)]\<rparr>"
    by (auto simp: step_def split: if_splits)
  from inv i(1) have k: "dbID (fst (calls \<sigma> ! i)) \<noteq> None"
    by (simp add: sys_inv_def)
  have "\<forall>c \<in> set ((calls \<sigma>)[i := (fst (calls \<sigma> ! i), Rejected_outside_try)]).
          dbID (fst c) \<noteq> None"
    using inv k
      set_update_subset_insert [of "calls \<sigma>" i "(fst (calls \<sigma> ! i), Rejected_outside_try)"]
    by (auto simp: sys_inv_def)
  with inv i show ?thesis unfolding sys_inv_def \<sigma>'
    by (simp add: in_flight_update)
next
  case (Finally i)
  with st have i: "i < length (calls \<sigma>)" "snd (calls \<sigma> ! i) = InTry"
    and \<sigma>': "\<sigma>' = \<lparr>the_store =
                        snd (updateActiveFetchCount (fst (calls \<sigma> ! i)) Decrement (the_store \<sigma>)),
                      calls = (calls \<sigma>)[i := (fst (calls \<sigma> ! i), Completed)]\<rparr>"
    by (auto simp: step_def split: if_splits)
  from inv i(1) have "dbID (fst (calls \<sigma> ! i)) \<noteq> None"
    by (simp add: sys_inv_def)
  then obtain k where k: "dbID (fst (calls \<sigma> ! i)) = Some k" by blast
  have "\<forall>c \<in> set ((calls \<sigma>)[i := (fst (calls \<sigma> ! i), Completed)]). dbID (fst c) \<noteq> None"
    using inv k set_update_subset_insert [of "calls \<sigma>" i "(fst (calls \<sigma> ! i), Completed)"]
    by (auto simp: sys_inv_def)
  with inv i k show ?thesis unfolding sys_inv_def \<sigma>'
    by (simp add: updateActiveFetchCount_Some [OF k] currentCount_update in_flight_update
          Decrement_def)
qed

lemma run_inv:
  assumes "sys_inv \<sigma>" "run evs \<sigma> = Some \<sigma>'"
  shows "sys_inv \<sigma>'"
  using assms
proof (induction evs arbitrary: \<sigma>)
  case Nil
  then show ?case by simp
next
  case (Cons ev evs)
  from Cons.prems(2) obtain \<sigma>1 where 1: "step ev \<sigma> = Some \<sigma>1" "run evs \<sigma>1 = Some \<sigma>'"
    by (auto split: option.splits)
  from Cons.IH [OF step_inv [OF Cons.prems(1) 1(1)] 1(2)] show ?case .
qed

lemma init_inv:
  assumes "activeFetchCountPerRepository s0 = Map.empty"
  shows "sys_inv \<lparr>the_store = s0, calls = []\<rparr>"
  using assms by (simp add: sys_inv_def currentCount_def in_flight_def)

lemma currentCount_stored:
  "activeFetchCountPerRepository s i = Some c \<Longrightarrow> currentCount s i = c"
  by (simp add: currentCount_def)

lemma refresh_lastUpdated_rejected:
  assumes "gitHubRepository repository = Some g" "dbID g = Some i"
    and "getLastUpdated env (db s) g = Inl e"
  shows "refreshPullRequests env repository account s =
           (Inl e,
            s\<lparr>activeFetchCountPerRepository :=
                 (activeFetchCountPerRepository s)(i \<mapsto> currentCount s i + 1),
              emitted := emitted s @ [g]\<rparr>)"
  using assms
  by (simp add: refreshPullRequests_def forceUnwrap_def updateActiveFetchCount_Some Increment_def)

lemma refresh_lastUpdated_resolved:
  assumes gh: "gitHubRepository repository = Some g" and id: "dbID g = Some i"
    and lu: "getLastUpdated env (db s) g = Inr lastUpdatedAt"
  shows "fst (refreshPullRequests env repository account s) = Inr () \<and>
         currentCount (snd (refreshPullRequests env repository account s)) j = currentCount s j"
proof -
  let ?s1 = "s\<lparr>activeFetchCountPerRepository :=
                 (activeFetchCountPerRepository s)(i \<mapsto> Increment (currentCount s i)),
              emitted := emitted s @ [g]\<rparr>"
  obtain rt st where t: "refresh_try env repository g account lastUpdatedAt ?s1 = (rt, st)"
    by (cases "refresh_try env repository g account lastUpdatedAt ?s1")
  let ?sc = "refresh_catch repository (rt, st)"
  from refresh_try_frame [OF t] refresh_catch_frame [of repository rt st]
  have c: "activeFetchCountPerRepository ?sc =
             (activeFetchCountPerRepository s)(i \<mapsto> Increment (currentCount s i))" by simp
  then have cc: "currentCount ?sc i = Increment (currentCount s i)"
    "j \<noteq> i \<Longrightarrow> currentCount ?sc j = currentCount s j"
    by (simp_all add: currentCount_def)
  have r: "refreshPullRequests env repository account s =
        updateActiveFetchCount g Decrement ?sc"
    using gh lu t by (simp add: refreshPullRequests_def forceUnwrap_def updateActiveFetchCount_Some [OF id])
  show ?thesis
    unfolding r updateActiveFetchCount_Some [OF id]
    using cc by (simp add: currentCount_update Increment_def Decrement_def)
qed

lemma refresh_counter_as_schedule:
  "activeFetchCountPerRepository (snd (refreshPullRequests env repository account s)) =
   activeFetchCountPerRepository
     (the_store (the (run
        (case gitHubRepository repository of
           None \<Rightarrow> [Call repository]
         | Some g \<Rightarrow>
            (case dbID g of
               None \<Rightarrow> [Call repository]
             | Some i \<Rightarrow>
                (case getLastUpdated env (db s) g of
                   Inl e \<Rightarrow> [Call repository, LastUpdatedRejected 0]
                 | Inr lu \<Rightarrow> [Call repository, LastUpdatedResolved 0, Finally 0])))
        \<lparr>the_store = s, calls = []\<rparr>)))"
proof (cases "gitHubRepository repository")
  case None
  then show ?thesis by (simp add: refreshPullRequests_def step_def forceUnwrap_def)
next
  case (Some g)
  show ?thesis
  proof (cases "dbID g")
    case None
    with Some show ?thesis
      by (simp add: refreshPullRequests_def step_def forceUnwrap_def updateActiveFetchCount_def)
  next
    case Some2: (Some i)
    show ?thesis
    proof (cases "getLastUpdated env (db s) g")
      case (Inl e)
      with Some Some2 show ?thesis
        by (simp add: refreshPullRequests_def step_def forceUnwrap_def
              updateActiveFetchCount_Some [OF Some2])
    next
      case (Inr lu)
      let ?s1 = "s\<lparr>activeFetchCountPerRepository :=
                 (activeFetchCountPerRepository s)(i \<mapsto> Increment (currentCount s i)),
              emitted := emitted s @ [g]\<rparr>"
      obtain rt st where t: "refresh_try env repository g account lu ?s1 = (rt, st)"
        by (cases "refresh_try env repository g account lu ?s1")
      from refresh_try_frame [OF t] refresh_catch_frame [of repository rt st]
      have c: "activeFetchCountPerRepository (refresh_catch repository (rt, st)) =
             (activeFetchCountPerRepository s)(i \<mapsto> Increment (currentCount s i))" by simp
      then have cc: "currentCount (refresh_catch repository (rt, st)) i = Increment (currentCount s i)"
        by (simp add: currentCount_def)
      have cs: "currentCount ?s1 i = Increment (currentCount s i)"
        by (simp add: currentCount_def)
      from Some Some2 Inr t c cc cs show ?thesis
        by (simp add: refreshPullRequests_def step_def forceUnwrap_def
              updateActiveFetchCount_Some [OF Some2])
    qed
  qed
qed

section \<open>The table after a refresh\<close>

lemma cachePullRequests_db:
  assumes "cachePullRequests env prs g s = (r, s')"
  shows "(r = Inr True \<and>
          (\<exists>dels ups. transactions s' = transactions s @ [(dels, ups)] \<and>
                      db s' = commit dels ups (db s))) \<or>
         (r \<noteq> Inr True \<and> db s' = db s \<and> transactions s' = transactions s)"
proof (cases "r = Inr True")
  case True
  with cachePullRequests_committed [of env prs g s s'] assms show ?thesis by blast
next
  case False
  show ?thesis
  proof (cases "prs = []")
    case True
    with assms False show ?thesis by (simp add: cachePullRequests_def)
  next
    case ne: False
    obtain rl sl where l: "cachePullRequests_loop env g prs [] [] s = (rl, sl)"
      by (cases "cachePullRequests_loop env g prs [] [] s")
    note fl = loop_frame [OF l]
    show ?thesis
    proof (cases rl)
      case (Inl e)
      with assms ne l fl False show ?thesis by (simp add: cachePullRequests_def)
    next
      case (Inr p)
      obtain d u where p: "p = (d, u)" by (cases p)
      from assms ne l Inr p fl False show ?thesis
        by (auto simp: cachePullRequests_def Let_def db_transaction_def write_log_def
                 split: sum.splits bool.splits option.splits)
    qed
  qed
qed

lemma refresh_try_db:
  assumes "refresh_try env repository g account lu s = (r, s')"
  shows "((db s' = db s \<and> transactions s' = transactions s) \<or>
          (\<exists>dels ups. transactions s' = transactions s @ [(dels, ups)] \<and>
                      db s' = commit dels ups (db s))) \<and>
         (\<forall>e. api env account (request_for g lu) = Inl e \<longrightarrow>
              r = Inl e \<and> db s' = db s \<and> transactions s' = transactions s) \<and>
         (\<forall>prs e. api env account (request_for g lu) = Inr prs \<and>
              fst (cachePullRequests env prs g (s\<lparr>requests := requests s @ [request_for g lu]\<rparr>))
                = Inl e \<longrightarrow>
              r = Inl e \<and> db s' = db s \<and> transactions s' = transactions s)"
proof -
  let ?s1 = "s\<lparr>requests := requests s @ [request_for g lu]\<rparr>"
  show ?thesis
  proof (cases "api env account (request_for g lu)")
    case (Inl e)
    with assms show ?thesis by (auto simp: refresh_try_def Let_def)
  next
    case (Inr prs)
    obtain rc sc where c: "cachePullRequests env prs g ?s1 = (rc, sc)"
      by (cases "cachePullRequests env prs g ?s1")
    from cachePullRequests_db [OF c]
    have dc: "(rc = Inr True \<and>
          (\<exists>dels ups. transactions sc = transactions s @ [(dels, ups)] \<and>
                      db sc = commit dels ups (db s))) \<or>
         (rc \<noteq> Inr True \<and> db sc = db s \<and> transactions sc = transactions s)" by simp
    show ?thesis
    proof (cases "rc = Inr True")
      case False
      with dc have same: "db sc = db s" "transactions sc = transactions s" by auto
      from assms Inr c False have "s' = sc" "r = (case rc of Inl e \<Rightarrow> Inl e | Inr _ \<Rightarrow> Inr ())"
        by (auto simp: refresh_try_def Let_def split: sum.splits bool.splits)
      with same Inr c show ?thesis by (auto split: sum.splits)
    next
      case True
      with dc obtain dels ups where
        com: "transactions sc = transactions s @ [(dels, ups)]" "db sc = commit dels ups (db s)"
        by blast
      have "db s' = db sc \<and> transactions s' = transactions sc"
      proof (cases "getAll env g sc")
        case (Inl e)
        with assms Inr c True show ?thesis by (simp add: refresh_try_def Let_def)
      next
        case Inr2: (Inr ps)
        obtain rp sp where pr: "pruneForkedRemotes env repository ps sc = (rp, sp)"
          by (cases "pruneForkedRemotes env repository ps sc")
        from pruneForkedRemotes_frame [OF pr] assms Inr c True Inr2 pr show ?thesis
          by (auto simp: refresh_try_def Let_def emitUpdate_def split: sum.splits)
      qed
      with com Inr c True show ?thesis by auto
    qed
  qed
qed

lemmas ex_defs = ex_env_def ex_upsert_def ex_find_def ex_pr_def ex_repo_def ex_repository_def
  ex_account_def ex_store_def ex_record_def ex_github_repository_def dbPr_def

section \<open>Reconciliation\<close>

text \<open>
  C3. An empty fetched list: \<^verbatim>\<open>cachePullRequests\<close> returns false at once, and the
  store is as it was: no entry of the table changed, no transaction was run, nothing
  was logged.
\<close>

theorem cachePullRequests_empty:
  "cachePullRequests env [] repository s = (Inr False, s)"
  by (simp add: cachePullRequests_def)

text \<open>
  C1. When the loop ends with nothing to delete and one record to upsert, and the record
  stored for the repository under that number is equal to it in every field,
  \<^verbatim>\<open>cachePullRequests\<close> returns false, and neither the table nor the list of
  transactions run has changed.
\<close>

theorem cachePullRequests_single_unchanged:
  assumes loop: "cachePullRequests_loop env repository prs [] [] s = (Inr ([], [cur]), s1)"
    and prev: "db_getPullRequest env (db s) repository (number cur) = Inr (Some prev)"
    and same: "structuralEquals cur prev"
  shows "cachePullRequests env prs repository s = (Inr False, s1) \<and>
         db s1 = db s \<and> transactions s1 = transactions s"
proof -
  have ne: "prs \<noteq> []" using loop by auto
  note fr = loop_frame [OF loop]
  have "unchanged_single env repository [] [cur] s1 = Inr True"
    using prev same fr by (simp add: unchanged_single_def)
  with loop ne fr show ?thesis by (simp add: cachePullRequests_def)
qed

theorem cachePullRequests_single_unchanged_witness:
  "cachePullRequests_loop (ex_env []) ex_repo
      [ex_pr 7 Open (Some ''up/desktop'') (Some ''up/desktop'')] [] []
      (ex_store [((1, 7), ex_record 7 1)]) =
     (Inr ([], [ex_record 7 1]), ex_store [((1, 7), ex_record 7 1)]) \<and>
   db_getPullRequest (ex_env []) (db (ex_store [((1, 7), ex_record 7 1)])) ex_repo
      (number (ex_record 7 1)) = Inr (Some (ex_record 7 1)) \<and>
   structuralEquals (ex_record 7 1) (ex_record 7 1) \<and>
   cachePullRequests (ex_env []) [ex_pr 7 Open (Some ''up/desktop'') (Some ''up/desktop'')]
      ex_repo (ex_store [((1, 7), ex_record 7 1)]) =
     (Inr False, ex_store [((1, 7), ex_record 7 1)])"
proof -
  have h1: "cachePullRequests_loop (ex_env []) ex_repo
      [ex_pr 7 Open (Some ''up/desktop'') (Some ''up/desktop'')] [] []
      (ex_store [((1, 7), ex_record 7 1)]) =
     (Inr ([], [ex_record 7 1]), ex_store [((1, 7), ex_record 7 1)])"
    by (simp add: ex_defs cachePullRequests_body_def)
  have h2: "db_getPullRequest (ex_env []) (db (ex_store [((1, 7), ex_record 7 1)])) ex_repo
      (number (ex_record 7 1)) = Inr (Some (ex_record 7 1))"
    by (simp add: ex_defs db_getPullRequest_def)
  have h3: "structuralEquals (ex_record 7 1) (ex_record 7 1)"
    by (simp add: structuralEquals_def)
  from cachePullRequests_single_unchanged [OF h1 h2 h3] h1 h2 h3 show ?thesis by simp
qed

text \<open>
  C5. A fetched pull request whose head repository is null: its pass of the loop leaves
  both arrays as they are, returns no error, and changes the store by one debug entry of
  the log only; and wherever it stands in the fetched list, the loop ends with the same
  two arrays, or the same error, as on the list without it.
\<close>

theorem null_head_skipped:
  assumes "api_repo (api_head pr) = None"
  shows "cachePullRequests_body env repository pr dels ups s =
           (Inr (dels, ups),
            write_log (Debug_no_head_repository (api_number pr) (fullName repository)) s) \<and>
         fst (cachePullRequests_loop env repository (xs @ pr # ys) dels ups s) =
           fst (cachePullRequests_loop env repository (xs @ ys) dels ups s)"
proof
  show "cachePullRequests_body env repository pr dels ups s =
          (Inr (dels, ups),
           write_log (Debug_no_head_repository (api_number pr) (fullName repository)) s)"
    by (rule body_null_head [OF assms])
next
  show "fst (cachePullRequests_loop env repository (xs @ pr # ys) dels ups s) =
          fst (cachePullRequests_loop env repository (xs @ ys) dels ups s)"
  proof (induction xs arbitrary: dels ups s)
    case Nil
    have "repositoryStore
            (write_log (Debug_no_head_repository (api_number pr) (fullName repository)) s) =
          repositoryStore s"
      by (simp add: write_log_def)
    from loop_repositoryStore [OF this, of env repository ys dels ups]
    show ?case by (simp add: body_null_head [OF assms])
  next
    case (Cons x xs)
    obtain rb sb where b: "cachePullRequests_body env repository x dels ups s = (rb, sb)"
      by (cases "cachePullRequests_body env repository x dels ups s")
    show ?case
    proof (cases rb)
      case (Inl e)
      with b show ?thesis by simp
    next
      case (Inr p)
      obtain d u where p: "p = (d, u)" by (cases p)
      from Cons.IH [of d u sb] b Inr p show ?thesis by simp
    qed
  qed
qed

theorem null_head_skipped_witness:
  "api_repo (api_head (ex_pr 8 Closed None (Some ''up/desktop''))) = None \<and>
   cachePullRequests_body (ex_env []) ex_repo (ex_pr 8 Closed None (Some ''up/desktop''))
       [] [ex_record 7 1] (ex_store []) =
     (Inr ([], [ex_record 7 1]),
      (ex_store [])\<lparr>log := [Debug_no_head_repository 8 ''octo/up/desktop'']\<rparr>) \<and>
   fst (cachePullRequests_loop (ex_env []) ex_repo
          ([ex_pr 7 Open (Some ''up/desktop'') (Some ''up/desktop'')] @
           ex_pr 8 Closed None (Some ''up/desktop'') # []) [] [] (ex_store [])) =
     Inr ([], [ex_record 7 1])"
proof -
  have h: "api_repo (api_head (ex_pr 8 Closed None (Some ''up/desktop''))) = None"
    by (simp add: ex_pr_def)
  have l: "fst (cachePullRequests_loop (ex_env []) ex_repo
             ([ex_pr 7 Open (Some ''up/desktop'') (Some ''up/desktop'')] @ []) [] []
             (ex_store [])) = Inr ([], [ex_record 7 1])"
    by (simp add: ex_defs cachePullRequests_body_def)
  have w: "write_log (Debug_no_head_repository
              (api_number (ex_pr 8 Closed None (Some ''up/desktop''))) (fullName ex_repo))
              (ex_store []) =
           (ex_store [])\<lparr>log := [Debug_no_head_repository 8 ''octo/up/desktop'']\<rparr>"
    by (simp add: ex_defs write_log_def fullName_def)
  from null_head_skipped [OF h, of "ex_env []" ex_repo "[]" "[ex_record 7 1]" "ex_store []"]
    null_head_skipped [OF h, of "ex_env []" ex_repo "[]" "[]" "ex_store []"
      "[ex_pr 7 Open (Some ''up/desktop'') (Some ''up/desktop'')]" "[]"]
    h l w
  show ?thesis by simp
qed

text \<open>
  C10. A non-empty fetched list in which every head repository is null: the loop ends with
  both arrays empty, \<^verbatim>\<open>cachePullRequests\<close> runs the transaction on the two empty
  lists and returns true, the table is as it was, and the \<^verbatim>\<open>try\<close> block of the
  refresh goes on to \<^verbatim>\<open>getAll\<close>, to the pruning of the remotes and to the update
  notification. (The transaction is taken not to reject.)
\<close>

theorem all_heads_null_still_changed:
  assumes ne: "prs \<noteq> []"
    and null: "\<forall>pr \<in> set prs. api_repo (api_head pr) = None"
    and ok: "db_failure env Transaction = None"
    and fetched: "api env account (request_for g lastUpdatedAt) = Inr prs"
  shows "cachePullRequests_loop env g prs [] [] s =
           (Inr ([], []),
            s\<lparr>log := log s @
                 map (\<lambda>pr. Debug_no_head_repository (api_number pr) (fullName g)) prs\<rparr>) \<and>
         cachePullRequests env prs g s =
           (Inr True,
            s\<lparr>log := log s @
                 map (\<lambda>pr. Debug_no_head_repository (api_number pr) (fullName g)) prs @
                 [Console_found 0 0],
              transactions := transactions s @ [([], [])]\<rparr>) \<and>
         db (snd (cachePullRequests env prs g s)) = db s \<and>
         refresh_try env repository g account lastUpdatedAt s =
           (let s2 = s\<lparr>requests := requests s @ [request_for g lastUpdatedAt],
                       log := log s @
                         map (\<lambda>pr. Debug_no_head_repository (api_number pr) (fullName g)) prs @
                         [Console_found 0 0],
                       transactions := transactions s @ [([], [])]\<rparr>
            in case getAll env g s2 of
                 Inl e \<Rightarrow> (Inl e, s2)
               | Inr ps \<Rightarrow>
                  (case pruneForkedRemotes env repository ps s2 of
                     (Inl e, s3) \<Rightarrow> (Inl e, s3)
                   | (Inr _, s3) \<Rightarrow> (Inr (), emitUpdate g s3)))"
proof -
  note c = cachePullRequests_all_null_head [OF ne null ok]
  have "refresh_try env repository g account lastUpdatedAt s =
           (let s2 = s\<lparr>requests := requests s @ [request_for g lastUpdatedAt],
                       log := log s @
                         map (\<lambda>pr. Debug_no_head_repository (api_number pr) (fullName g)) prs @
                         [Console_found 0 0],
                       transactions := transactions s @ [([], [])]\<rparr>
            in case getAll env g s2 of
                 Inl e \<Rightarrow> (Inl e, s2)
               | Inr ps \<Rightarrow>
                  (case pruneForkedRemotes env repository ps s2 of
                     (Inl e, s3) \<Rightarrow> (Inl e, s3)
                   | (Inr _, s3) \<Rightarrow> (Inr (), emitUpdate g s3)))"
    using fetched by (simp add: refresh_try_def Let_def c)
  then show ?thesis
    by (simp add: c loop_all_null_head [OF null])
qed

theorem all_heads_null_still_changed_witness:
  "[ex_orphan] \<noteq> [] \<and> api_repo (api_head ex_orphan) = None \<and>
   db_failure (ex_env [ex_orphan]) Transaction = None \<and>
   api (ex_env [ex_orphan]) ex_account (request_for ex_repo None) = Inr [ex_orphan] \<and>
   fst (cachePullRequests (ex_env [ex_orphan]) [ex_orphan] ex_repo ex_store_with_remote) =
     Inr True \<and>
   db (snd (cachePullRequests (ex_env [ex_orphan]) [ex_orphan] ex_repo ex_store_with_remote)) =
     [((1, 7), ex_record 7 1)] \<and>
   refresh_try (ex_env [ex_orphan]) ex_repository ex_repo ex_account None ex_store_with_remote =
     (Inr (),
      ex_store_with_remote
        \<lparr>git := [],
         log := [Debug_no_head_repository 9 ''octo/up/desktop'', Console_found 0 0],
         emitted := [ex_repo],
         requests := [FetchPullRequests ''octo'' ''up/desktop'' ''open''],
         transactions := [([], [])]\<rparr>)"
proof -
  have ne: "[ex_orphan] \<noteq> []" by simp
  have hd: "api_repo (api_head ex_orphan) = None" by (simp add: ex_orphan_def ex_pr_def)
  then have null: "\<forall>pr \<in> set [ex_orphan]. api_repo (api_head pr) = None" by simp
  have ok: "db_failure (ex_env [ex_orphan]) Transaction = None" by (simp add: ex_env_def)
  have fetched: "api (ex_env [ex_orphan]) ex_account (request_for ex_repo None) = Inr [ex_orphan]"
    by (simp add: ex_env_def)
  have ga: "getAll (ex_env [ex_orphan]) ex_repo
              (ex_store_with_remote
                 \<lparr>requests := requests ex_store_with_remote @ [request_for ex_repo None],
                  log := log ex_store_with_remote @
                    map (\<lambda>pr. Debug_no_head_repository (api_number pr) (fullName ex_repo))
                      [ex_orphan] @ [Console_found 0 0],
                  transactions := transactions ex_store_with_remote @ [([], [])]\<rparr>) =
            Inr [\<lparr>pr_created = Date ''2019-01-01T00:00:00Z'', pr_title = ''Fix the thing'',
                  pr_number = 7,
                  pr_head = \<lparr>pr_ref = ''topic'', pr_sha = ''abc'',
                     pr_gitHubRepository = Some ex_repo\<rparr>,
                  pr_base = \<lparr>pr_ref = ''master'', pr_sha = ''def'',
                     pr_gitHubRepository = Some ex_repo\<rparr>,
                  pr_author = ''alice''\<rparr>]"
    by (simp add: getAll_def db_getAllPullRequestsInRepository_def getRepo_def Let_def
          ex_store_with_remote_def ex_defs)
  from all_heads_null_still_changed [OF ne null ok fetched, of ex_store_with_remote ex_repository]
    ne hd ok fetched ga
  show ?thesis
    by (simp add: Let_def pruneForkedRemotes_def emitUpdate_def request_for_def fullName_def
          ex_store_with_remote_def ex_orphan_def ex_defs)
qed

text \<open>
  Where the head repository is present, a closed or merged pull request is deleted: when
  the loop has ended and the transaction does not reject, \<^verbatim>\<open>cachePullRequests\<close>
  commits and returns true, the record of the pull request is in the list of deletions
  and not in the list of upserts, and the table has no entry under the key of that
  record (the id of its base repository and its number), provided no open pull request
  of the fetched list has the same number.
\<close>

lemma closed_with_head_deleted:
  assumes loop: "cachePullRequests_loop env repository prs [] [] s = (Inr (dels, ups), s1)"
    and pr: "pr \<in> set prs"
    and closed: "api_state pr = Closed \<or> api_state pr = Merged"
    and hd: "api_repo (api_head pr) \<noteq> None"
    and nodup: "\<forall>pr' \<in> set prs. api_state pr' = Open \<longrightarrow> api_number pr' \<noteq> api_number pr"
    and ok: "db_failure env Transaction = None"
  shows "\<exists>h b.
           dbPr pr h b \<in> set dels \<and> dbPr pr h b \<notin> set ups \<and>
           cachePullRequests env prs repository s =
             (Inr True,
              s1\<lparr>log := log s1 @ [Console_found (length dels) (length ups)],
                 db := commit dels ups (db s),
                 transactions := transactions s @ [(dels, ups)]\<rparr>) \<and>
           map_of (commit dels ups (db s)) (b, api_number pr) = None"
proof -
  note ls = loop_sets [OF loop]
  from ls pr closed hd obtain h b where r: "dbPr pr h b \<in> set dels" by blast
  have nk: "(b, api_number pr) \<notin> key ` set ups"
  proof
    assume "(b, api_number pr) \<in> key ` set ups"
    then obtain x where x: "x \<in> set ups" "key x = (b, api_number pr)" by auto
    with ls obtain pr' h' b' where "pr' \<in> set prs" "api_state pr' = Open" "x = dbPr pr' h' b'"
      by auto
    with x nodup show False by (auto simp: key_dbPr)
  qed
  then have nu: "dbPr pr h b \<notin> set ups"
    using key_dbPr [of pr h b] by force
  from r have "(b, api_number pr) \<in> key ` set dels"
    using key_dbPr [of pr h b] by force
  from map_of_commit_deleted [OF this nk]
  have "map_of (commit dels ups (db s)) (b, api_number pr) = None" .
  with closed_forces_commit [OF loop pr closed hd ok] r nu show ?thesis by blast
qed

lemma closed_with_head_deleted_example:
  "cachePullRequests (ex_env []) [ex_closed7, ex_open8] ex_repo (ex_store [((1, 7), ex_record 7 1)]) =
     (Inr True,
      (ex_store [((1, 8), ex_record 8 2)])
        \<lparr>repositoryStore := [''up/desktop'', ''fork/desktop''],
         log := [Console_found 1 1],
         transactions := [([ex_record 7 1], [ex_record 8 2])]\<rparr>) \<and>
   map_of (commit [ex_record 7 1] [ex_record 8 2] [((1, 7), ex_record 7 1)]) (1, 7) = None"
proof -
  have loop: "cachePullRequests_loop (ex_env []) ex_repo [ex_closed7, ex_open8] [] []
      (ex_store [((1, 7), ex_record 7 1)]) =
     (Inr ([ex_record 7 1], [ex_record 8 2]),
      (ex_store [((1, 7), ex_record 7 1)])
        \<lparr>repositoryStore := [''up/desktop'', ''fork/desktop'']\<rparr>)"
    by (simp add: cachePullRequests_body_def Let_def ex_closed7_def ex_open8_def ex_defs)
  have pr: "ex_closed7 \<in> set [ex_closed7, ex_open8]" by simp
  have closed: "api_state ex_closed7 = Closed \<or> api_state ex_closed7 = Merged"
    by (simp add: ex_closed7_def ex_pr_def)
  have hd: "api_repo (api_head ex_closed7) \<noteq> None" by (simp add: ex_closed7_def ex_pr_def)
  have nodup: "\<forall>pr' \<in> set [ex_closed7, ex_open8].
      api_state pr' = Open \<longrightarrow> api_number pr' \<noteq> api_number ex_closed7"
    by (simp add: ex_open8_def ex_closed7_def ex_pr_def)
  have ok: "db_failure (ex_env []) Transaction = None" by (simp add: ex_env_def)
  have k: "\<And>h b. dbPr ex_closed7 h b \<in> set [ex_record 7 1] \<Longrightarrow> b = 1"
    by (simp add: ex_closed7_def ex_defs)
  have c: "commit [ex_record 7 1] [ex_record 8 2] [((1, 7), ex_record 7 1)] =
             [((1, 8), ex_record 8 2)]"
    by (simp add: commit_def deletePullRequests_def putPullRequests_def key_def ex_defs)
  from closed_with_head_deleted [OF loop pr closed hd nodup ok] k c
  show ?thesis by (auto simp: ex_store_def ex_closed7_def ex_pr_def)
qed

text \<open>
  C4 at the input where it fails. A closed pull request whose head repository is null is
  skipped by the loop before its state is looked at: \<^verbatim>\<open>cachePullRequests\<close> commits
  an empty transaction and the record cached for its number stays, against the
  docstring of the method ("deletes all that are merged or closed").
\<close>

theorem closed_without_head_stays_cached:
  "api_state ex_closed7_orphan = Closed \<and>
   map_of (db (ex_store [((1, 7), ex_record 7 1)])) (1, 7) = Some (ex_record 7 1) \<and>
   cachePullRequests_loop (ex_env []) ex_repo [ex_closed7_orphan] [] []
       (ex_store [((1, 7), ex_record 7 1)]) =
     (Inr ([], []),
      (ex_store [((1, 7), ex_record 7 1)])
        \<lparr>log := [Debug_no_head_repository 7 ''octo/up/desktop'']\<rparr>) \<and>
   cachePullRequests (ex_env []) [ex_closed7_orphan] ex_repo (ex_store [((1, 7), ex_record 7 1)]) =
     (Inr True,
      (ex_store [((1, 7), ex_record 7 1)])
        \<lparr>log := [Debug_no_head_repository 7 ''octo/up/desktop'', Console_found 0 0],
         transactions := [([], [])]\<rparr>) \<and>
   map_of (db (snd (cachePullRequests (ex_env []) [ex_closed7_orphan] ex_repo
                      (ex_store [((1, 7), ex_record 7 1)])))) (1, 7) = Some (ex_record 7 1)"
  by (simp add: cachePullRequests_def cachePullRequests_body_def unchanged_single_def
        db_transaction_def write_log_def commit_nothing fullName_def
        Let_def ex_closed7_orphan_def ex_defs)

text \<open>
  C9, as the code has it. A fetched pull request whose head repository is present, at
  the moment the loop reaches it with its head repository resolved: when its base
  repository is null, or is resolved at that moment to a record with no database id,
  \<^verbatim>\<open>cachePullRequests\<close> ends in the fatal error of that check and the table and the
  list of transactions are as they were. So \<^verbatim>\<open>cachePullRequests\<close> returns normally
  only if the base repository of every such pull request was resolved to a record with
  an id. A cached record read by \<^verbatim>\<open>getAll\<close> whose base repository is not found:
  \<^verbatim>\<open>getAll\<close> returns no list; it ends in the fatal error of the loop, or in the
  rejection of a repository lookup of one of the records read.
\<close>

theorem unresolved_base_is_fatal:
  "(cachePullRequests_loop env repository xs [] [] s = (Inr (d, u), s1) \<and>
    api_repo (api_head pr) = Some h \<and>
    upsertGitHubRepository env (repositoryStore s1) (endpoint repository) h = Inr (headRepo, rs1) \<and>
    dbID headRepo = Some headId \<longrightarrow>
      db s1 = db s \<and> transactions s1 = transactions s \<and>
      (api_repo (api_base pr) = None \<longrightarrow>
         cachePullRequests env (xs @ pr # ys) repository s =
           (Inl (FatalError ''PR cannot have a null base repo''),
            s1\<lparr>repositoryStore := rs1\<rparr>)) \<and>
      (\<forall>b g rs2.
         api_repo (api_base pr) = Some b \<and>
         upsertGitHubRepository env rs1 (endpoint repository) b = Inr (g, rs2) \<and>
         dbID g = None \<longrightarrow>
         cachePullRequests env (xs @ pr # ys) repository s =
           (Inl (FatalError ''PR cannot have a null parent database id''),
            s1\<lparr>repositoryStore := rs2\<rparr>))) \<and>
   (fst (cachePullRequests env (xs @ pr # ys) repository s) = Inr c \<and>
    api_repo (api_head pr) = Some h \<longrightarrow>
      (\<exists>d u s1 headRepo rs1 headId b g rs2 baseId.
         cachePullRequests_loop env repository xs [] [] s = (Inr (d, u), s1) \<and>
         upsertGitHubRepository env (repositoryStore s1) (endpoint repository) h =
           Inr (headRepo, rs1) \<and> dbID headRepo = Some headId \<and>
         api_repo (api_base pr) = Some b \<and>
         upsertGitHubRepository env rs1 (endpoint repository) b = Inr (g, rs2) \<and>
         dbID g = Some baseId)) \<and>
   (db_getAllPullRequestsInRepository env (db t) repository = Inr records \<and>
    r \<in> set records \<and>
    findGitHubRepositoryByID env (repositoryStore t) (repoId (base r)) = Inr None \<longrightarrow>
    (\<exists>e. getAll env repository t = Inl e \<and>
       (e = FatalError ''base repository can't be null'' \<or>
        (\<exists>x \<in> set records.
           findGitHubRepositoryByID env (repositoryStore t) (repoId (head x)) = Inl e \<or>
           findGitHubRepositoryByID env (repositoryStore t) (repoId (base x)) = Inl e))))"
proof (intro conjI impI allI)
  assume a: "cachePullRequests_loop env repository xs [] [] s = (Inr (d, u), s1) \<and>
    api_repo (api_head pr) = Some h \<and>
    upsertGitHubRepository env (repositoryStore s1) (endpoint repository) h = Inr (headRepo, rs1) \<and>
    dbID headRepo = Some headId"
  then have l: "cachePullRequests_loop env repository xs [] [] s = (Inr (d, u), s1)" by blast
  from loop_frame [OF l] show "db s1 = db s" by simp
next
  assume a: "cachePullRequests_loop env repository xs [] [] s = (Inr (d, u), s1) \<and>
    api_repo (api_head pr) = Some h \<and>
    upsertGitHubRepository env (repositoryStore s1) (endpoint repository) h = Inr (headRepo, rs1) \<and>
    dbID headRepo = Some headId"
  then have l: "cachePullRequests_loop env repository xs [] [] s = (Inr (d, u), s1)" by blast
  from loop_frame [OF l] show "transactions s1 = transactions s" by simp
next
  assume a: "cachePullRequests_loop env repository xs [] [] s = (Inr (d, u), s1) \<and>
    api_repo (api_head pr) = Some h \<and>
    upsertGitHubRepository env (repositoryStore s1) (endpoint repository) h = Inr (headRepo, rs1) \<and>
    dbID headRepo = Some headId"
    and nb: "api_repo (api_base pr) = None"
  from a have l: "cachePullRequests_loop env repository xs [] [] s = (Inr (d, u), s1)"
    and h: "api_repo (api_head pr) = Some h"
    and hr: "upsertGitHubRepository env (repositoryStore s1) (endpoint repository) h =
               Inr (headRepo, rs1)"
    and hid: "dbID headRepo = Some headId" by blast+
  from cachePullRequests_reaches [OF l body_null_base [OF h hr hid nb]]
  show "cachePullRequests env (xs @ pr # ys) repository s =
           (Inl (FatalError ''PR cannot have a null base repo''), s1\<lparr>repositoryStore := rs1\<rparr>)" .
next
  fix b g rs2
  assume a: "cachePullRequests_loop env repository xs [] [] s = (Inr (d, u), s1) \<and>
    api_repo (api_head pr) = Some h \<and>
    upsertGitHubRepository env (repositoryStore s1) (endpoint repository) h = Inr (headRepo, rs1) \<and>
    dbID headRepo = Some headId"
    and b: "api_repo (api_base pr) = Some b \<and>
         upsertGitHubRepository env rs1 (endpoint repository) b = Inr (g, rs2) \<and>
         dbID g = None"
  from a have l: "cachePullRequests_loop env repository xs [] [] s = (Inr (d, u), s1)"
    and h: "api_repo (api_head pr) = Some h"
    and hr: "upsertGitHubRepository env (repositoryStore s1) (endpoint repository) h =
               Inr (headRepo, rs1)"
    and hid: "dbID headRepo = Some headId" by blast+
  from b have b1: "api_repo (api_base pr) = Some b"
    and b2: "upsertGitHubRepository env rs1 (endpoint repository) b = Inr (g, rs2)"
    and b3: "dbID g = None" by blast+
  from cachePullRequests_reaches [OF l body_base_without_id [OF h hr hid b1 b2 b3]]
  show "cachePullRequests env (xs @ pr # ys) repository s =
           (Inl (FatalError ''PR cannot have a null parent database id''),
            s1\<lparr>repositoryStore := rs2\<rparr>)" .
next
  assume a: "fst (cachePullRequests env (xs @ pr # ys) repository s) = Inr c \<and>
    api_repo (api_head pr) = Some h"
  then have c: "fst (cachePullRequests env (xs @ pr # ys) repository s) = Inr c"
    and h: "api_repo (api_head pr) = Some h" by blast+
  from cachePullRequests_Inr_loop [OF c] obtain dels ups sl where
    w: "cachePullRequests_loop env repository (xs @ pr # ys) [] [] s = (Inr (dels, ups), sl)"
    by auto
  obtain rx sx where x: "cachePullRequests_loop env repository xs [] [] s = (rx, sx)"
    by (cases "cachePullRequests_loop env repository xs [] [] s")
  from w x obtain d u where rx: "rx = Inr (d, u)"
    by (cases rx) (auto simp: loop_append)
  obtain rb sb where b: "cachePullRequests_body env repository pr d u sx = (rb, sb)"
    by (cases "cachePullRequests_body env repository pr d u sx")
  from w x rx b obtain p where "rb = Inr p"
    by (cases rb) (auto simp: loop_append)
  with b have "cachePullRequests_body env repository pr d u sx = (Inr p, sb)" by simp
  from body_Inr_resolved [OF this h] x rx
  show "\<exists>d u s1 headRepo rs1 headId b g rs2 baseId.
         cachePullRequests_loop env repository xs [] [] s = (Inr (d, u), s1) \<and>
         upsertGitHubRepository env (repositoryStore s1) (endpoint repository) h =
           Inr (headRepo, rs1) \<and> dbID headRepo = Some headId \<and>
         api_repo (api_base pr) = Some b \<and>
         upsertGitHubRepository env rs1 (endpoint repository) b = Inr (g, rs2) \<and>
         dbID g = Some baseId" by blast
next
  assume b: "db_getAllPullRequestsInRepository env (db t) repository = Inr records \<and>
    r \<in> set records \<and>
    findGitHubRepositoryByID env (repositoryStore t) (repoId (base r)) = Inr None"
  then have b1: "db_getAllPullRequestsInRepository env (db t) repository = Inr records"
    and b2: "r \<in> set records"
    and b3: "findGitHubRepositoryByID env (repositoryStore t) (repoId (base r)) = Inr None"
    by blast+
  from b1 have id: "dbID repository \<noteq> None"
    by (auto simp: db_getAllPullRequestsInRepository_def split: option.splits)
  have ms: "memo_sound env (repositoryStore t) Map.empty" by (simp add: memo_sound_def)
  from getAll_loop_base_null [OF b2 b3 ms, of "[]"] obtain e where
    e: "getAll_loop env (repositoryStore t) records Map.empty [] = Inl e"
      "e = FatalError ''base repository can't be null'' \<or>
        (\<exists>x \<in> set records.
           findGitHubRepositoryByID env (repositoryStore t) (repoId (head x)) = Inl e \<or>
           findGitHubRepositoryByID env (repositoryStore t) (repoId (base x)) = Inl e)" by blast
  from e(1) b1 id have "getAll env repository t = Inl e" by (auto simp: getAll_def)
  with e(2) show "\<exists>e. getAll env repository t = Inl e \<and>
       (e = FatalError ''base repository can't be null'' \<or>
        (\<exists>x \<in> set records.
           findGitHubRepositoryByID env (repositoryStore t) (repoId (head x)) = Inl e \<or>
           findGitHubRepositoryByID env (repositoryStore t) (repoId (base x)) = Inl e))" by blast
qed


theorem unresolved_base_is_fatal_witness:
  "cachePullRequests_loop ex_env_ghost_after_fork ex_repo [ex_open8] [] [] (ex_store []) =
     (Inr ([], [ex_record 8 2]),
      (ex_store [])\<lparr>repositoryStore := [''up/desktop'', ''fork/desktop'']\<rparr>) \<and>
   api_repo (api_head ex_ghost_base) = Some ''up/desktop'' \<and>
   upsertGitHubRepository ex_env_ghost_after_fork [''up/desktop'', ''fork/desktop'']
       (endpoint ex_repo) ''up/desktop'' =
     Inr (ex_repo, [''up/desktop'', ''fork/desktop'']) \<and>
   dbID ex_repo = Some 1 \<and>
   api_repo (api_base ex_ghost_base) = Some ''ghost'' \<and>
   upsertGitHubRepository ex_env_ghost_after_fork [''up/desktop'', ''fork/desktop'']
       (endpoint ex_repo) ''ghost'' =
     Inr ((ex_github_repository (endpoint ex_repo) ''ghost'' 0)\<lparr>dbID := None\<rparr>,
          [''up/desktop'', ''fork/desktop'']) \<and>
   upsertGitHubRepository ex_env_ghost_after_fork [''up/desktop''] (endpoint ex_repo) ''ghost'' =
     Inr (ex_github_repository (endpoint ex_repo) ''ghost'' 2, [''up/desktop'', ''ghost'']) \<and>
   cachePullRequests ex_env_ghost_after_fork ([ex_open8] @ ex_ghost_base # [ex_closed7]) ex_repo
       (ex_store []) =
     (Inl (FatalError ''PR cannot have a null parent database id''),
      (ex_store [])\<lparr>repositoryStore := [''up/desktop'', ''fork/desktop'']\<rparr>) \<and>
   api_repo (api_base ex_null_base) = None \<and>
   cachePullRequests ex_env_ghost_after_fork ([ex_open8] @ ex_null_base # [ex_closed7]) ex_repo
       (ex_store []) =
     (Inl (FatalError ''PR cannot have a null base repo''),
      (ex_store [])\<lparr>repositoryStore := [''up/desktop'', ''fork/desktop'']\<rparr>) \<and>
   db_getAllPullRequestsInRepository ex_env_ghost_after_fork (db ex_store_no_repositories) ex_repo =
     Inr [ex_record 7 1] \<and>
   findGitHubRepositoryByID ex_env_ghost_after_fork (repositoryStore ex_store_no_repositories)
     (repoId (base (ex_record 7 1))) = Inr None \<and>
   getAll ex_env_ghost_after_fork ex_repo ex_store_no_repositories =
     Inl (FatalError ''base repository can't be null'')"
proof -
  let ?s1 = "(ex_store [])\<lparr>repositoryStore := [''up/desktop'', ''fork/desktop'']\<rparr>"
  have l: "cachePullRequests_loop ex_env_ghost_after_fork ex_repo [ex_open8] [] [] (ex_store []) =
     (Inr ([], [ex_record 8 2]), ?s1)"
    by (simp add: cachePullRequests_body_def Let_def ex_env_ghost_after_fork_def ex_open8_def
          ex_defs)
  have h: "api_repo (api_head ex_ghost_base) = Some ''up/desktop''"
    by (simp add: ex_ghost_base_def ex_pr_def)
  have h': "api_repo (api_head ex_null_base) = Some ''up/desktop''"
    by (simp add: ex_null_base_def ex_pr_def)
  have hr: "upsertGitHubRepository ex_env_ghost_after_fork (repositoryStore ?s1)
       (endpoint ex_repo) ''up/desktop'' = Inr (ex_repo, [''up/desktop'', ''fork/desktop''])"
    by (simp add: ex_env_ghost_after_fork_def ex_defs Let_def)
  have hid: "dbID ex_repo = Some 1" by (simp add: ex_repo_def ex_github_repository_def)
  have b1: "api_repo (api_base ex_ghost_base) = Some ''ghost''"
    by (simp add: ex_ghost_base_def ex_pr_def)
  have b2: "upsertGitHubRepository ex_env_ghost_after_fork [''up/desktop'', ''fork/desktop'']
       (endpoint ex_repo) ''ghost'' =
     Inr ((ex_github_repository (endpoint ex_repo) ''ghost'' 0)\<lparr>dbID := None\<rparr>,
          [''up/desktop'', ''fork/desktop''])"
    by (simp add: ex_env_ghost_after_fork_def ex_env_def)
  have b3: "dbID ((ex_github_repository (endpoint ex_repo) ''ghost'' 0)\<lparr>dbID := None\<rparr>) = None"
    by simp
  have b0: "upsertGitHubRepository ex_env_ghost_after_fork [''up/desktop''] (endpoint ex_repo)
       ''ghost'' =
     Inr (ex_github_repository (endpoint ex_repo) ''ghost'' 2, [''up/desktop'', ''ghost''])"
    by (simp add: ex_env_ghost_after_fork_def ex_env_def ex_upsert_def Let_def numeral_2_eq_2)
  have nb: "api_repo (api_base ex_null_base) = None"
    by (simp add: ex_null_base_def ex_pr_def)
  have g1: "db_getAllPullRequestsInRepository ex_env_ghost_after_fork
              (db ex_store_no_repositories) ex_repo = Inr [ex_record 7 1]"
    by (simp add: db_getAllPullRequestsInRepository_def ex_store_no_repositories_def
          ex_env_ghost_after_fork_def ex_defs)
  have g2: "ex_record 7 1 \<in> set [ex_record 7 1]" by simp
  have g3: "findGitHubRepositoryByID ex_env_ghost_after_fork
              (repositoryStore ex_store_no_repositories) (repoId (base (ex_record 7 1))) = Inr None"
    by (simp add: ex_store_no_repositories_def ex_env_ghost_after_fork_def ex_defs)
  have g4: "\<And>i e. findGitHubRepositoryByID ex_env_ghost_after_fork
              (repositoryStore ex_store_no_repositories) i \<noteq> Inl e"
    by (simp add: ex_store_no_repositories_def ex_env_ghost_after_fork_def ex_defs)
  note t1 = unresolved_base_is_fatal [where env = ex_env_ghost_after_fork and repository = ex_repo
      and xs = "[ex_open8]" and s = "ex_store []" and d = "[]" and u = "[ex_record 8 2]"
      and ?s1.0 = ?s1 and pr = ex_ghost_base and h = "''up/desktop''" and headRepo = ex_repo
      and ?rs1.0 = "[''up/desktop'', ''fork/desktop'']" and headId = 1 and ys = "[ex_closed7]"
      and t = ex_store_no_repositories and records = "[ex_record 7 1]" and r = "ex_record 7 1"]
  note t2 = unresolved_base_is_fatal [where env = ex_env_ghost_after_fork and repository = ex_repo
      and xs = "[ex_open8]" and s = "ex_store []" and d = "[]" and u = "[ex_record 8 2]"
      and ?s1.0 = ?s1 and pr = ex_null_base and h = "''up/desktop''" and headRepo = ex_repo
      and ?rs1.0 = "[''up/desktop'', ''fork/desktop'']" and headId = 1 and ys = "[ex_closed7]"]
  from t1 l h hr hid b1 b2 b3
  have c1: "cachePullRequests ex_env_ghost_after_fork ([ex_open8] @ ex_ghost_base # [ex_closed7])
       ex_repo (ex_store []) =
     (Inl (FatalError ''PR cannot have a null parent database id''), ?s1)"
    by simp
  from t2 l h' hr hid nb
  have c2: "cachePullRequests ex_env_ghost_after_fork ([ex_open8] @ ex_null_base # [ex_closed7])
       ex_repo (ex_store []) =
     (Inl (FatalError ''PR cannot have a null base repo''), ?s1)"
    by simp
  from t1 g1 g2 g3 g4
  have c3: "getAll ex_env_ghost_after_fork ex_repo ex_store_no_repositories =
     Inl (FatalError ''base repository can't be null'')"
    by auto
  from l h hr hid b1 b2 b0 nb g1 g3 c1 c2 c3 show ?thesis by simp
qed

text \<open>
  C9 as stated fails: a pull request whose head repository is null is skipped before its
  base repository is looked at, so with a base repository that gets no database id
  \<^verbatim>\<open>cachePullRequests\<close> raises nothing and returns true.
\<close>

theorem null_head_hides_unresolved_base:
  "api_repo (api_head ex_orphan_ghost) = None \<and>
   api_repo (api_base ex_orphan_ghost) = Some ''ghost'' \<and>
   upsertGitHubRepository ex_env_ghost (repositoryStore (ex_store [])) (endpoint ex_repo) ''ghost'' =
     Inr ((ex_github_repository (endpoint ex_repo) ''ghost'' 0)\<lparr>dbID := None\<rparr>,
          [''up/desktop'']) \<and>
   cachePullRequests ex_env_ghost [ex_orphan_ghost] ex_repo (ex_store []) =
     (Inr True,
      (ex_store [])
        \<lparr>log := [Debug_no_head_repository 9 ''octo/up/desktop'', Console_found 0 0],
         transactions := [([], [])]\<rparr>)"
  by (simp add: cachePullRequests_def cachePullRequests_body_def unchanged_single_def
        db_transaction_def write_log_def commit_nothing fullName_def Let_def
        ex_env_ghost_def ex_orphan_ghost_def ex_defs)

section \<open>Refreshing\<close>

text \<open>
  C8. A call of \<^verbatim>\<open>refreshPullRequests\<close> for a repository of the database, whose
  last-updated query answers, sends one request: for the open pull requests when there
  is no timestamp, for the pull requests updated since the timestamp when there is one.
\<close>

theorem refresh_request:
  assumes gh: "gitHubRepository repository = Some g"
    and id: "dbID g = Some i"
    and lu: "getLastUpdated env (db s) g = Inr lastUpdatedAt"
  shows "requests (snd (refreshPullRequests env repository account s)) =
           requests s @
           [case lastUpdatedAt of
              None \<Rightarrow> FetchPullRequests (owner_login g) (name g) ''open''
            | Some t \<Rightarrow> FetchUpdatedPullRequests (owner_login g) (name g) t]"
proof -
  obtain s1 where inc: "updateActiveFetchCount g Increment s = (Inr (), s1)"
    by (simp add: updateActiveFetchCount_Some [OF id])
  have s1: "db s1 = db s" "requests s1 = requests s"
    using updateActiveFetchCount_frame [of g Increment s] inc by simp_all
  obtain rt st where t: "refresh_try env repository g account lastUpdatedAt s1 = (rt, st)"
    by (cases "refresh_try env repository g account lastUpdatedAt s1")
  from refresh_try_frame [OF t] s1
  have "requests st = requests s @ [request_for g lastUpdatedAt]" by simp
  then have "requests (snd (updateActiveFetchCount g Decrement (refresh_catch repository (rt, st))))
               = requests s @ [request_for g lastUpdatedAt]"
    using updateActiveFetchCount_frame [of g Decrement "refresh_catch repository (rt, st)"]
      refresh_catch_frame [of repository rt st] by simp
  moreover have "refreshPullRequests env repository account s =
      updateActiveFetchCount g Decrement (refresh_catch repository (rt, st))"
    using gh inc lu s1 t by (simp add: refreshPullRequests_def forceUnwrap_def)
  ultimately show ?thesis
    by (simp add: request_for_def split: option.splits)
qed

theorem refresh_request_witness:
  "gitHubRepository ex_repository = Some ex_repo \<and> dbID ex_repo = Some 1 \<and>
   getLastUpdated (ex_env []) (db (ex_store [])) ex_repo = Inr None \<and>
   requests (snd (refreshPullRequests (ex_env []) ex_repository ex_account (ex_store []))) =
     [FetchPullRequests ''octo'' ''up/desktop'' ''open''] \<and>
   getLastUpdated (ex_env []) (db (ex_store [((1, 7), ex_record 7 1)])) ex_repo =
     Inr (Some (Date ''t0'')) \<and>
   requests (snd (refreshPullRequests (ex_env []) ex_repository ex_account
                    (ex_store [((1, 7), ex_record 7 1)]))) =
     [FetchUpdatedPullRequests ''octo'' ''up/desktop'' (Date ''t0'')]"
proof -
  have gh: "gitHubRepository ex_repository = Some ex_repo"
    by (simp add: ex_repository_def)
  have id: "dbID ex_repo = Some 1"
    by (simp add: ex_repo_def ex_github_repository_def)
  have lu1: "getLastUpdated (ex_env []) (db (ex_store [])) ex_repo = Inr None"
    by (simp add: ex_env_def ex_store_def)
  have lu2: "getLastUpdated (ex_env []) (db (ex_store [((1, 7), ex_record 7 1)])) ex_repo =
     Inr (Some (Date ''t0''))"
    by (simp add: ex_env_def ex_store_def)
  have nm: "owner_login ex_repo = ''octo''" "name ex_repo = ''up/desktop''"
    by (simp_all add: ex_repo_def ex_github_repository_def)
  have rq: "requests (ex_store []) = []" "requests (ex_store [((1, 7), ex_record 7 1)]) = []"
    by (simp_all add: ex_store_def)
  from refresh_request [OF gh id lu1, of ex_account] refresh_request [OF gh id lu2, of ex_account]
    gh id lu1 lu2 nm rq
  show ?thesis by simp
qed

text \<open>
  C6, as the code has it. A refresh that reaches the \<^verbatim>\<open>try\<close> block returns normally
  whatever happens in the block. The table after it is either the table before, with no
  transaction run, or the table before with one whole transaction applied (all its
  deletions, then all its upserts). Whatever the block throws is logged as a warning.
  When the fetch fails, or \<^verbatim>\<open>cachePullRequests\<close> fails, the table is the table
  before. (That a rejected transaction applies none of its writes is the contract of the
  database library, taken here as \<open>db_transaction\<close> states it.)
\<close>

theorem failed_refresh_all_or_nothing:
  assumes gh: "gitHubRepository repository = Some g"
    and id: "dbID g = Some i"
    and lu: "getLastUpdated env (db s) g = Inr lastUpdatedAt"
  shows "fst (refreshPullRequests env repository account s) = Inr () \<and>
         ((db (snd (refreshPullRequests env repository account s)) = db s \<and>
           transactions (snd (refreshPullRequests env repository account s)) = transactions s) \<or>
          (\<exists>dels ups.
             transactions (snd (refreshPullRequests env repository account s)) =
               transactions s @ [(dels, ups)] \<and>
             db (snd (refreshPullRequests env repository account s)) = commit dels ups (db s))) \<and>
         (\<forall>e. fst (refresh_try env repository g account lastUpdatedAt
                     (snd (updateActiveFetchCount g Increment s))) = Inl e \<longrightarrow>
              Warn_error_refreshing (repo_name repository) e
                \<in> set (log (snd (refreshPullRequests env repository account s)))) \<and>
         (\<forall>e. api env account (request_for g lastUpdatedAt) = Inl e \<longrightarrow>
              fst (refresh_try env repository g account lastUpdatedAt
                     (snd (updateActiveFetchCount g Increment s))) = Inl e \<and>
              db (snd (refreshPullRequests env repository account s)) = db s \<and>
              transactions (snd (refreshPullRequests env repository account s)) = transactions s) \<and>
         (\<forall>prs e. api env account (request_for g lastUpdatedAt) = Inr prs \<and>
              fst (cachePullRequests env prs g
                     ((snd (updateActiveFetchCount g Increment s))
                        \<lparr>requests := requests s @ [request_for g lastUpdatedAt]\<rparr>)) = Inl e \<longrightarrow>
              fst (refresh_try env repository g account lastUpdatedAt
                     (snd (updateActiveFetchCount g Increment s))) = Inl e \<and>
              db (snd (refreshPullRequests env repository account s)) = db s \<and>
              transactions (snd (refreshPullRequests env repository account s)) = transactions s)"
proof -
  obtain s1 where inc: "updateActiveFetchCount g Increment s = (Inr (), s1)"
    by (simp add: updateActiveFetchCount_Some [OF id])
  have s1: "db s1 = db s" "requests s1 = requests s" "transactions s1 = transactions s"
    using updateActiveFetchCount_frame [of g Increment s] inc by simp_all
  obtain rt st where t: "refresh_try env repository g account lastUpdatedAt s1 = (rt, st)"
    by (cases "refresh_try env repository g account lastUpdatedAt s1")
  let ?sc = "refresh_catch repository (rt, st)"
  have r: "refreshPullRequests env repository account s = updateActiveFetchCount g Decrement ?sc"
    using gh inc lu s1 t by (simp add: refreshPullRequests_def forceUnwrap_def)
  have res: "fst (refreshPullRequests env repository account s) = Inr ()"
    unfolding r by (simp add: updateActiveFetchCount_Some [OF id])
  have fin: "db (snd (refreshPullRequests env repository account s)) = db st"
    "transactions (snd (refreshPullRequests env repository account s)) = transactions st"
    "log (snd (refreshPullRequests env repository account s)) = log ?sc"
    unfolding r
    using updateActiveFetchCount_frame [of g Decrement ?sc] refresh_catch_frame [of repository rt st]
    by simp_all
  have warn: "Warn_error_refreshing (repo_name repository) e \<in> set (log ?sc)" if "rt = Inl e" for e
    using that by (simp add: refresh_catch_def write_log_def)
  note td = refresh_try_db [OF t]
  from inc have sn: "snd (updateActiveFetchCount g Increment s) = s1" by simp
  show ?thesis
    unfolding sn fin using res td t s1 warn by auto
qed

theorem failed_refresh_all_or_nothing_witness:
  "gitHubRepository ex_repository = Some ex_repo \<and> dbID ex_repo = Some 1 \<and>
   getLastUpdated ex_env_api_down (db (ex_store [((1, 7), ex_record 7 1)])) ex_repo =
     Inr (Some (Date ''t0'')) \<and>
   api ex_env_api_down ex_account (request_for ex_repo (Some (Date ''t0''))) =
     Inl (Rejected ''network'') \<and>
   fst (refreshPullRequests ex_env_api_down ex_repository ex_account
          (ex_store [((1, 7), ex_record 7 1)])) = Inr () \<and>
   Warn_error_refreshing (repo_name ex_repository) (Rejected ''network'')
     \<in> set (log (snd (refreshPullRequests ex_env_api_down ex_repository ex_account
                         (ex_store [((1, 7), ex_record 7 1)])))) \<and>
   db (snd (refreshPullRequests ex_env_api_down ex_repository ex_account
              (ex_store [((1, 7), ex_record 7 1)]))) = [((1, 7), ex_record 7 1)] \<and>
   transactions (snd (refreshPullRequests ex_env_api_down ex_repository ex_account
              (ex_store [((1, 7), ex_record 7 1)]))) = []"
proof -
  have gh: "gitHubRepository ex_repository = Some ex_repo" by (simp add: ex_repository_def)
  have id: "dbID ex_repo = Some 1" by (simp add: ex_repo_def ex_github_repository_def)
  have lu: "getLastUpdated ex_env_api_down (db (ex_store [((1, 7), ex_record 7 1)])) ex_repo =
     Inr (Some (Date ''t0''))"
    by (simp add: ex_env_api_down_def ex_env_def ex_store_def)
  have ap: "api ex_env_api_down ex_account (request_for ex_repo (Some (Date ''t0''))) =
     Inl (Rejected ''network'')"
    by (simp add: ex_env_api_down_def ex_env_def)
  have st: "db (ex_store [((1, 7), ex_record 7 1)]) = [((1, 7), ex_record 7 1)]"
    "transactions (ex_store [((1, 7), ex_record 7 1)]) = []"
    by (simp_all add: ex_store_def)
  from failed_refresh_all_or_nothing [OF gh id lu, of ex_account] ap st gh id lu
  show ?thesis by auto
qed

text \<open>
  C6 as stated fails: when git cannot list the remotes, the refresh has already
  committed the fetched pull request; the warning is logged and the table has changed.
\<close>

theorem warned_after_commit:
  "db (ex_store []) = [] \<and>
   refreshPullRequests (ex_env_git_down [ex_open8]) ex_repository ex_account (ex_store []) =
     (Inr (),
      (ex_store [((1, 8), ex_record 8 2)])
        \<lparr>activeFetchCountPerRepository := [1 \<mapsto> 0],
         repositoryStore := [''up/desktop'', ''fork/desktop''],
         log := [Console_found 0 1, Warn_error_refreshing ''desktop'' (Rejected ''git failed'')],
         emitted := [ex_repo, ex_repo],
         requests := [FetchPullRequests ''octo'' ''up/desktop'' ''open''],
         transactions := [([], [ex_record 8 2])]\<rparr>) \<and>
   db (snd (refreshPullRequests (ex_env_git_down [ex_open8]) ex_repository ex_account
              (ex_store []))) \<noteq> db (ex_store [])"
  by (simp add: refreshPullRequests_def refresh_try_def refresh_catch_def request_for_def
        forceUnwrap_def updateActiveFetchCount_def emitUpdate_def currentCount_def
        Increment_def Decrement_def
        cachePullRequests_def cachePullRequests_body_def unchanged_single_def
        db_getPullRequest_def db_transaction_def write_log_def commit_def
        deletePullRequests_def putPullRequests_def key_def
        getAll_def db_getAllPullRequestsInRepository_def getRepo_def pruneForkedRemotes_def
        Let_def ex_env_git_down_def ex_open8_def ex_defs)

section \<open>The fetch-activity counter\<close>

text \<open>
  C7. From a store with an empty counter map, along every schedule of calls of
  \<^verbatim>\<open>refreshPullRequests\<close>, the counter of a repository is the number of its calls
  that have incremented and not decremented: it is never negative, neither is the value
  stored in the map, and \<^verbatim>\<open>isFetchingPullRequests\<close> of a repository of the database
  returns whether the counter is greater than 0.
\<close>

theorem counter_never_negative:
  assumes init: "activeFetchCountPerRepository s0 = Map.empty"
    and reach: "run evs \<lparr>the_store = s0, calls = []\<rparr> = Some \<sigma>"
  shows "currentCount (the_store \<sigma>) i = int (in_flight i (calls \<sigma>)) \<and>
         0 \<le> currentCount (the_store \<sigma>) i \<and>
         (\<forall>c. activeFetchCountPerRepository (the_store \<sigma>) i = Some c \<longrightarrow> 0 \<le> c) \<and>
         (dbID repository = Some i \<longrightarrow>
            isFetchingPullRequests repository (the_store \<sigma>) =
              Inr (0 < currentCount (the_store \<sigma>) i))"
proof -
  from run_inv [OF init_inv [OF init] reach]
  have c: "currentCount (the_store \<sigma>) i = int (in_flight i (calls \<sigma>))"
    by (simp add: sys_inv_def)
  then have nn: "0 \<le> currentCount (the_store \<sigma>) i" by simp
  have "0 \<le> c" if "activeFetchCountPerRepository (the_store \<sigma>) i = Some c" for c
    using currentCount_stored [OF that] nn by simp
  moreover have "isFetchingPullRequests repository (the_store \<sigma>) =
              Inr (0 < currentCount (the_store \<sigma>) i)" if "dbID repository = Some i"
    using that by (simp add: isFetchingPullRequests_def forceUnwrap_def)
  ultimately show ?thesis using c nn by blast
qed

theorem counter_never_negative_witness:
  "activeFetchCountPerRepository (ex_store []) = Map.empty \<and>
   run [Call ex_repository, Call ex_repository, LastUpdatedResolved 0, LastUpdatedRejected 1,
        Finally 0] \<lparr>the_store = ex_store [], calls = []\<rparr> =
     Some \<lparr>the_store = (ex_store [])\<lparr>activeFetchCountPerRepository := [1 \<mapsto> 1],
                                       emitted := [ex_repo, ex_repo, ex_repo]\<rparr>,
           calls = [(ex_repo, Completed), (ex_repo, Rejected_outside_try)]\<rparr> \<and>
   dbID ex_repo = Some 1 \<and>
   currentCount ((ex_store [])\<lparr>activeFetchCountPerRepository := [1 \<mapsto> 1],
                                emitted := [ex_repo, ex_repo, ex_repo]\<rparr>) 1 = 1 \<and>
   0 \<le> currentCount ((ex_store [])\<lparr>activeFetchCountPerRepository := [1 \<mapsto> 1],
                                emitted := [ex_repo, ex_repo, ex_repo]\<rparr>) 1 \<and>
   isFetchingPullRequests ex_repo
     ((ex_store [])\<lparr>activeFetchCountPerRepository := [1 \<mapsto> 1],
                    emitted := [ex_repo, ex_repo, ex_repo]\<rparr>) = Inr True"
proof -
  have init: "activeFetchCountPerRepository (ex_store []) = Map.empty"
    by (simp add: ex_store_def)
  have reach: "run [Call ex_repository, Call ex_repository, LastUpdatedResolved 0,
        LastUpdatedRejected 1, Finally 0] \<lparr>the_store = ex_store [], calls = []\<rparr> =
     Some \<lparr>the_store = (ex_store [])\<lparr>activeFetchCountPerRepository := [1 \<mapsto> 1],
                                       emitted := [ex_repo, ex_repo, ex_repo]\<rparr>,
           calls = [(ex_repo, Completed), (ex_repo, Rejected_outside_try)]\<rparr>"
    by (simp add: step_def forceUnwrap_def updateActiveFetchCount_def emitUpdate_def
          currentCount_def Increment_def Decrement_def ex_repository_def ex_repo_def
          ex_github_repository_def ex_store_def)
  have id: "dbID ex_repo = Some 1" by (simp add: ex_repo_def ex_github_repository_def)
  have c: "currentCount ((ex_store [])\<lparr>activeFetchCountPerRepository := [1 \<mapsto> 1],
                                emitted := [ex_repo, ex_repo, ex_repo]\<rparr>) 1 = 1"
    by (simp add: currentCount_def)
  from counter_never_negative [OF init reach, of 1 ex_repo] init reach id c
  show ?thesis by simp
qed

text \<open>
  C2 at the input where it fails. \<^verbatim>\<open>getLastUpdated\<close> is awaited after the increment
  and before the \<^verbatim>\<open>try\<close>: when it rejects, the call ends with the counter
  incremented and \<^verbatim>\<open>isFetchingPullRequests\<close> stays true. (When it answers, the
  counter is back where it was: lemma \<open>refresh_lastUpdated_resolved\<close>.)
\<close>

theorem refresh_leaks_counter:
  "refreshPullRequests ex_env_db_down ex_repository ex_account (ex_store []) =
     (Inl (Rejected ''database closed''),
      (ex_store [])\<lparr>activeFetchCountPerRepository := [1 \<mapsto> 1], emitted := [ex_repo]\<rparr>) \<and>
   isFetchingPullRequests ex_repo
     (snd (refreshPullRequests ex_env_db_down ex_repository ex_account (ex_store []))) = Inr True"
proof -
  have gh: "gitHubRepository ex_repository = Some ex_repo" by (simp add: ex_repository_def)
  have id: "dbID ex_repo = Some 1" by (simp add: ex_repo_def ex_github_repository_def)
  have lu: "getLastUpdated ex_env_db_down (db (ex_store [])) ex_repo =
              Inl (Rejected ''database closed'')"
    by (simp add: ex_env_db_down_def ex_env_def)
  have c: "currentCount (ex_store []) 1 = 0" by (simp add: currentCount_def ex_store_def)
  from refresh_lastUpdated_rejected [OF gh id lu, of ex_account] c id
  show ?thesis
    by (simp add: isFetchingPullRequests_def forceUnwrap_def currentCount_def ex_store_def)
qed

end
